theory Spec2Isabelle
  imports Complex_Main "HOL-Library.Code_Target_Nat"
begin

section \<open>Text and numbers\<close>

text \<open>
  A Python \<^verbatim>\<open>str\<close> is a sequence of Unicode code points, so \<^verbatim>\<open>len\<close>, slicing and the
  \<^verbatim>\<open>re\<close> module all count code points. Text is therefore a list of code points, each
  an integer as \<^verbatim>\<open>ord\<close> gives it; \<open>py\<close> turns an ASCII literal of this file into such
  a list. A Python \<^verbatim>\<open>float\<close> that holds a number of seconds is an exact rational here:
  rounding to the nearest double is not part of the model.
\<close>

type_synonym pystr = "int list"

definition py :: "string \<Rightarrow> pystr" where
  "py s = map of_char s"

text \<open>\<^verbatim>\<open>\s\<close> of a \<^verbatim>\<open>str\<close> pattern and \<^verbatim>\<open>str.strip()\<close>: the Unicode whitespace code points.\<close>

definition is_space :: "int \<Rightarrow> bool" where
  "is_space c \<longleftrightarrow>
     (9 \<le> c \<and> c \<le> 13) \<or> (28 \<le> c \<and> c \<le> 32) \<or> c = 133 \<or> c = 160 \<or> c = 5760 \<or>
     (8192 \<le> c \<and> c \<le> 8202) \<or> c = 8232 \<or> c = 8233 \<or> c = 8239 \<or> c = 8287 \<or> c = 12288"

text \<open>\<^verbatim>\<open>[0-9]\<close>: the ten ASCII digits.\<close>

definition is_digit :: "int \<Rightarrow> bool" where
  "is_digit c \<longleftrightarrow> 48 \<le> c \<and> c \<le> 57"

text \<open>
  A literal pattern character \<open>p\<close> (ASCII, written in lower case) under
  \<^verbatim>\<open>re.IGNORECASE\<close>: a letter matches itself, its capital, and the code points that the
  \<^verbatim>\<open>re\<close> module folds onto it (U+0130 and U+0131 onto i, U+017F onto s, U+212A onto k);
  any other character matches only itself.
\<close>

definition ci_lit :: "int \<Rightarrow> int \<Rightarrow> bool" where
  "ci_lit p c \<longleftrightarrow>
     (if 97 \<le> p \<and> p \<le> 122
      then c = p \<or> c + 32 = p \<or> (p = 105 \<and> (c = 304 \<or> c = 305)) \<or>
           (p = 115 \<and> c = 383) \<or> (p = 107 \<and> c = 8490)
      else c = p)"

text \<open>The value of a run of ASCII digits.\<close>

definition digits_value :: "pystr \<Rightarrow> nat" where
  "digits_value ds = foldl (\<lambda>a c. 10 * a + nat (c - 48)) 0 ds"

text \<open>
  \<^verbatim>\<open>float(s)\<close> on the texts that group 1 of the retry pattern can hold: an unsigned
  decimal literal \<^verbatim>\<open>ddd\<close> or \<^verbatim>\<open>ddd.ddd\<close>. \<open>None\<close> is the \<^verbatim>\<open>ValueError\<close>; the other
  spellings Python accepts (signs, exponents, \<^verbatim>\<open>inf\<close>) never reach this call.
\<close>

definition py_float :: "pystr \<Rightarrow> rat option" where
  "py_float s =
     (let ip = takeWhile is_digit s; rest = dropWhile is_digit s
      in if ip = [] then None
         else (case rest of
                 [] \<Rightarrow> Some (of_nat (digits_value ip))
               | c # fp \<Rightarrow>
                   if c = 46 \<and> fp \<noteq> [] \<and> list_all is_digit fp
                   then Some (of_nat (digits_value ip) + of_nat (digits_value fp) / 10 ^ length fp)
                   else None))"

section \<open>The retry hint in an error message\<close>

text \<open>
  \<^verbatim>\<open>re.search(r"retry in\s+([0-9]+(?:\.[0-9]+)?)s", err_msg, flags=re.IGNORECASE)\<close>.
  The matcher is the backtracking one of the \<^verbatim>\<open>re\<close> module, in continuation-passing
  style: every piece of the pattern gets the matcher of what follows it, a greedy
  repetition tries the longest run first and gives characters back while the rest of
  the pattern fails, and the optional group is tried before it is skipped.
\<close>

fun lit :: "(int \<Rightarrow> bool) \<Rightarrow> (pystr \<Rightarrow> 'r option) \<Rightarrow> pystr \<Rightarrow> 'r option" where
  "lit P k [] = None"
| "lit P k (c # cs) = (if P c then k cs else None)"

fun lits :: "pystr \<Rightarrow> (pystr \<Rightarrow> 'r option) \<Rightarrow> pystr \<Rightarrow> 'r option" where
  "lits [] k s = k s"
| "lits (p # ps) k s = lit (ci_lit p) (lits ps k) s"

fun star_g :: "(int \<Rightarrow> bool) \<Rightarrow> (pystr \<Rightarrow> pystr \<Rightarrow> 'r option) \<Rightarrow> pystr \<Rightarrow> pystr \<Rightarrow> 'r option" where
  "star_g P k acc [] = k acc []"
| "star_g P k acc (c # cs) =
     (if P c
      then (case star_g P k (acc @ [c]) cs of
              Some r \<Rightarrow> Some r
            | None \<Rightarrow> k acc (c # cs))
      else k acc (c # cs))"

definition plus_g :: "(int \<Rightarrow> bool) \<Rightarrow> (pystr \<Rightarrow> pystr \<Rightarrow> 'r option) \<Rightarrow> pystr \<Rightarrow> 'r option" where
  "plus_g P k s = (case s of [] \<Rightarrow> None | c # cs \<Rightarrow> if P c then star_g P k [c] cs else None)"

text \<open>The pattern tried at one position; the result is the text of group 1.\<close>

definition retry_pattern :: "pystr \<Rightarrow> pystr option" where
  "retry_pattern s =
     lits (py ''retry in'')
       (plus_g is_space (\<lambda>ws s1.
          plus_g is_digit (\<lambda>ip s2.
            (case lit (\<lambda>c. c = 46)
                    (plus_g is_digit (\<lambda>fp s3.
                       lit (ci_lit 115) (\<lambda>s4. Some (ip @ [46] @ fp)) s3)) s2 of
               Some g \<Rightarrow> Some g
             | None \<Rightarrow> lit (ci_lit 115) (\<lambda>s4. Some ip) s2)) s1)) s"

text \<open>\<^verbatim>\<open>re.search\<close>: the first position, from the left, where the pattern matches.\<close>

fun re_search :: "pystr \<Rightarrow> pystr option" where
  "re_search [] = retry_pattern []"
| "re_search (c # cs) =
     (case retry_pattern (c # cs) of
        Some g \<Rightarrow> Some g
      | None \<Rightarrow> re_search cs)"

definition parse_retry_seconds_from_error :: "pystr \<Rightarrow> rat option" where
  "parse_retry_seconds_from_error err_msg =
     (case re_search err_msg of
        Some g \<Rightarrow> py_float g
      | None \<Rightarrow> None)"

text \<open>
  The delay chosen in the \<^verbatim>\<open>except\<close> branch of \<^verbatim>\<open>call_gemini_with_retry\<close>, with
  \<^verbatim>\<open>backoff = 2.0\<close>; \<open>attempt\<close> runs from 1.
\<close>

definition retry_seconds :: "pystr \<Rightarrow> nat \<Rightarrow> rat" where
  "retry_seconds msg attempt =
     (case parse_retry_seconds_from_error msg of
        Some retry_s \<Rightarrow> retry_s
      | None \<Rightarrow> min (2 ^ (attempt - 1)) 60)"

section \<open>The world outside the program\<close>

text \<open>
  Everything the script reaches through a library call is a field of \<open>world\<close>: the
  clock behind \<^verbatim>\<open>time.time\<close> and \<^verbatim>\<open>time.sleep\<close>, the transport of the Wikipedia
  requests, the Wikipedia content, the generation service, the file system, the Unicode
  table behind \<^verbatim>\<open>\w\<close>, what was printed, and the lines that the standard output cannot
  encode. The module's one global variable, \<^verbatim>\<open>_last_call_ts\<close>, is a field as well. The
  n-th \<^verbatim>\<open>requests.get\<close>, the n-th \<^verbatim>\<open>generate_content\<close> and the n-th file-system operation
  take their outcome from a stream, at a cursor that the call advances, so a theorem
  about every world is a theorem about every behaviour of the network, the service,
  the disk and the console. A standard output that is closed while the script runs is
  outside the model.
\<close>

text \<open>The \<^verbatim>\<open>params\<close> dictionary of the two requests the script makes.\<close>

datatype params =
    Query pystr bool
  | OpenSearch pystr

text \<open>
  What one \<^verbatim>\<open>requests.get\<close> does: it raises (timeout, connection error) with a message,
  or it returns a response with a status code whose body is JSON or is not.
\<close>

datatype http_outcome =
    GetRaises pystr
  | Response nat bool

text \<open>The exceptions the \<^verbatim>\<open>try\<close> block of \<^verbatim>\<open>wiki_request\<close> can catch and keep in \<^verbatim>\<open>last_err\<close>.\<close>

datatype http_exc =
    RequestException pystr
  | HTTPError nat
  | JSONDecodeError

text \<open>
  One page object of \<^verbatim>\<open>query.pages\<close>: each key may be absent (\<^verbatim>\<open>page.get\<close> gives
  \<^verbatim>\<open>None\<close> or its default).
\<close>

record page =
  page_missing :: "pystr option"
  page_pageid :: "int option"
  page_title :: "pystr option"
  page_extract :: "pystr option"

text \<open>
  What \<^verbatim>\<open>model.generate_content(prompt)\<close> does: it raises with a message, or returns a
  response whose text is absent (\<open>None\<close>: a false response, no \<^verbatim>\<open>text\<close> attribute or
  \<^verbatim>\<open>text = None\<close>) or present.
\<close>

datatype gen_reply =
    Raises pystr
  | Responds "pystr option"

text \<open>
  The exceptions the \<^verbatim>\<open>try\<close> block of \<^verbatim>\<open>call_gemini_with_retry\<close> catches: the provider's,
  and its own \<^verbatim>\<open>RuntimeError("Resposta vazia do modelo.")\<close>; \<open>gen_exc_str\<close> is \<^verbatim>\<open>str(e)\<close>.
\<close>

datatype gen_exc =
    ProviderError pystr
  | EmptyResponse

fun gen_exc_str :: "gen_exc \<Rightarrow> pystr" where
  "gen_exc_str (ProviderError m) = m"
| "gen_exc_str EmptyResponse = py ''Resposta vazia do modelo.''"

text \<open>
  What creating a directory or writing a file does: it succeeds; it raises before
  anything is created; or (a file only) the file is opened, which creates or empties
  it, and the write raises after some characters.
\<close>

datatype fs_outcome =
    FsOk
  | FsFails pystr
  | FsPartial nat pystr

text \<open>
  The exceptions that leave a stage of the pipeline, each an \<^verbatim>\<open>Exception\<close> in Python:
  the three \<^verbatim>\<open>ValueError\<close>s of \<^verbatim>\<open>get_wikipedia_article\<close> (lines 108, 115, 121), the
  \<^verbatim>\<open>RuntimeError\<close> of \<^verbatim>\<open>wiki_request\<close> with \<^verbatim>\<open>retries\<close> and \<^verbatim>\<open>last_err\<close>, the
  \<^verbatim>\<open>RuntimeError\<close> of \<^verbatim>\<open>call_gemini_with_retry\<close> with \<^verbatim>\<open>max_retries\<close>, the \<^verbatim>\<open>OSError\<close>
  of the file system, the interpreter's \<^verbatim>\<open>RecursionError\<close>, the \<^verbatim>\<open>OverflowError\<close> and the
  \<^verbatim>\<open>ValueError\<close> of \<^verbatim>\<open>time.sleep\<close>, and the \<^verbatim>\<open>UnicodeEncodeError\<close> of \<^verbatim>\<open>print\<close> and of
  \<^verbatim>\<open>f.write\<close>.
\<close>

datatype error =
    NotFound pystr
  | PageNotFound pystr
  | NoContent pystr
  | WikiFailed nat "http_exc option"
  | GenFailed nat
  | OSError pystr
  | RecursionError
  | OverflowError
  | NegativeSleep
  | UnicodeEncodeError

text \<open>The \<^verbatim>\<open>print\<close> calls, each with the values it formats.\<close>

datatype event =
    Collecting pystr
  | Failed pystr error
  | Saved pystr
  | ThrottleWait rat int
  | RetryWait gen_exc rat nat nat

text \<open>
  The fields: the time in seconds; the arguments of the calls of \<^verbatim>\<open>time.sleep\<close> so far;
  the outcomes of the requests and the number of requests made; the language and
  parameters of the requests made; for a language, a title and the intro-only flag, the
  pages the query endpoint answers with, and for a language and a query, the titles the
  search endpoint answers with (the content of Wikipedia does not change during a
  run, and the answers have the shape the MediaWiki API gives them); the replies of the
  model, each with the milliseconds its call takes, and the number of calls made; the
  time, model name and prompt of the calls made; \<^verbatim>\<open>_last_call_ts\<close>; the outcomes of the
  file-system operations and the number of operations made; the files, by path; the
  alphanumeric code points; the printed lines; and the lines that the encoding of the
  standard output cannot encode (a console in cp1252 has no U+2713, U+2717 or U+2192,
  no encoding has a lone surrogate), given by the values they format.
\<close>

record world =
  clock :: rat
  sleeps :: "rat list"
  http :: "nat \<Rightarrow> http_outcome"
  http_pos :: nat
  gets :: "(pystr \<times> params) list"
  wiki_pages :: "pystr \<Rightarrow> pystr \<Rightarrow> bool \<Rightarrow> (pystr \<times> page) list"
  wiki_titles :: "pystr \<Rightarrow> pystr \<Rightarrow> pystr list"
  gen :: "nat \<Rightarrow> gen_reply \<times> nat"
  gen_pos :: nat
  gen_calls :: "(rat \<times> pystr \<times> pystr) list"
  last_call_ts :: rat
  fs :: "nat \<Rightarrow> fs_outcome"
  fs_pos :: nat
  files :: "pystr \<rightharpoonup> pystr"
  unicode_alnum :: "int \<Rightarrow> bool"
  stdout :: "event list"
  unprintable :: "event \<Rightarrow> bool"

text \<open>
  The configuration constants of the module that the properties range over, and the
  number of nested calls of \<^verbatim>\<open>get_wikipedia_article\<close> the interpreter's recursion limit
  leaves room for.
\<close>

record config =
  FREE_TIER_RPM :: int
  ENFORCE_CLIENT_THROTTLE :: bool
  recursion_limit :: nat

definition MAX_CHARS_PROMPT :: nat where
  "MAX_CHARS_PROMPT = 12000"

definition SAVE_DIR :: pystr where
  "SAVE_DIR = py ''saida_wiki''"

definition WIKI_LANG :: pystr where
  "WIKI_LANG = py ''pt''"

definition INTRO_ONLY :: bool where
  "INTRO_ONLY = False"

text \<open>
  A \<^verbatim>\<open>print\<close> that returns: the line is on the standard output. And \<^verbatim>\<open>print\<close> itself: the
  text is encoded before anything is written, and a line that the standard output
  cannot encode raises \<^verbatim>\<open>UnicodeEncodeError\<close> and leaves no output. The lines of lines
  176, 210, 214 and 221 hold a character outside ASCII or a text from outside the
  program and are printed with \<open>print_line\<close>; the line of line 138 is ASCII letters and
  two formatted numbers, which every encoding of a standard output has, and is
  printed with \<open>print_event\<close>.
\<close>

definition print_event :: "event \<Rightarrow> world \<Rightarrow> world" where
  "print_event e w = w\<lparr>stdout := stdout w @ [e]\<rparr>"

definition print_line :: "event \<Rightarrow> world \<Rightarrow> (error + unit) \<times> world" where
  "print_line e w =
     (if unprintable w e then (Inl UnicodeEncodeError, w) else (Inr (), print_event e w))"

text \<open>
  A \<^verbatim>\<open>time.sleep\<close> that returns: the clock moves on by the time asked for. And
  \<^verbatim>\<open>time.sleep(secs)\<close> itself: it raises \<^verbatim>\<open>ValueError\<close> for a negative number and
  \<^verbatim>\<open>OverflowError\<close> for a number of seconds that does not fit the interpreter's clock,
  which counts nanoseconds in 64 bits (some 292 years; a number so large that \<^verbatim>\<open>float\<close>
  reads it as infinite is above it), in both cases before any time passes. An
  interrupt from the keyboard is outside the model.
\<close>

definition sleep :: "rat \<Rightarrow> world \<Rightarrow> world" where
  "sleep secs w = w\<lparr>clock := clock w + secs, sleeps := sleeps w @ [secs]\<rparr>"

definition SLEEP_MAX :: rat where
  "SLEEP_MAX = 9223372036854775807 / 1000000000"

definition time_sleep :: "rat \<Rightarrow> world \<Rightarrow> (error + unit) \<times> world" where
  "time_sleep secs w =
     (if secs < 0 then (Inl NegativeSleep, w)
      else if SLEEP_MAX < secs then (Inl OverflowError, w)
      else (Inr (), sleep secs w))"

section \<open>Wikipedia\<close>

text \<open>
  \<^verbatim>\<open>slugify\<close>: drop every character that is not \<^verbatim>\<open>\w\<close>, \<^verbatim>\<open>\s\<close> or a hyphen; replace
  each run of whitespace, underscores and hyphens by one underscore (a character that
  starts a run gives the underscore, one that continues a run gives nothing); strip
  underscores at both ends; keep the first 100 characters. \<^verbatim>\<open>\w\<close> is an underscore or a
  character the Unicode table calls alphanumeric.
\<close>

definition is_sep :: "int \<Rightarrow> bool" where
  "is_sep c \<longleftrightarrow> is_space c \<or> c = 95 \<or> c = 45"

fun collapse_runs :: "bool \<Rightarrow> pystr \<Rightarrow> pystr" where
  "collapse_runs in_run [] = []"
| "collapse_runs in_run (c # cs) =
     (if is_sep c then (if in_run then [] else [95]) else [c]) @ collapse_runs (is_sep c) cs"

definition strip_chars :: "(int \<Rightarrow> bool) \<Rightarrow> pystr \<Rightarrow> pystr" where
  "strip_chars P s = rev (dropWhile P (rev (dropWhile P s)))"

definition slugify :: "(int \<Rightarrow> bool) \<Rightarrow> pystr \<Rightarrow> pystr" where
  "slugify alnum s =
     (let s1 = filter (\<lambda>c. alnum c \<or> c = 95 \<or> is_space c \<or> c = 45) s;
          s2 = strip_chars (\<lambda>c. c = 95) (collapse_runs False s1)
      in take 100 s2)"

text \<open>One \<^verbatim>\<open>requests.get\<close>: the next outcome of the transport.\<close>

definition http_get :: "pystr \<Rightarrow> params \<Rightarrow> world \<Rightarrow> http_outcome \<times> world" where
  "http_get lang ps w =
     (http w (http_pos w), w\<lparr>http_pos := Suc (http_pos w), gets := gets w @ [(lang, ps)]\<rparr>)"

text \<open>
  \<^verbatim>\<open>wiki_request\<close>: the loop \<^verbatim>\<open>for i in range(retries)\<close> over the list of its indices.
  \<open>body\<close> is the decoded JSON the service holds for \<open>ps\<close>, which \<^verbatim>\<open>resp.json()\<close> returns
  when the response is good. A 403 sleeps and goes on without touching \<^verbatim>\<open>last_err\<close>;
  \<^verbatim>\<open>raise_for_status\<close> raises on every status from 400 to 599; every exception of the
  \<^verbatim>\<open>try\<close> block is kept in \<^verbatim>\<open>last_err\<close> and followed by the same sleep. Its
  \<^verbatim>\<open>time.sleep\<close> returns: both callers leave \<^verbatim>\<open>retries\<close> at 3 and \<^verbatim>\<open>backoff\<close> at 1.5, so it is
  asked for 1.5, 2.25 and 3.375 seconds (\<open>wiki_sleep_returns\<close> below).
\<close>

fun wiki_attempts ::
  "params \<Rightarrow> 'a \<Rightarrow> pystr \<Rightarrow> nat \<Rightarrow> rat \<Rightarrow> nat list \<Rightarrow> http_exc option \<Rightarrow> world \<Rightarrow> (error + 'a) \<times> world" where
  "wiki_attempts ps body lang retries backoff [] last_err w = (Inl (WikiFailed retries last_err), w)"
| "wiki_attempts ps body lang retries backoff (i # rest) last_err w =
     (case http_get lang ps w of
        (GetRaises m, w1) \<Rightarrow>
          wiki_attempts ps body lang retries backoff rest (Some (RequestException m))
            (sleep (backoff ^ (i + 1)) w1)
      | (Response status json_ok, w1) \<Rightarrow>
          if status = 403
          then wiki_attempts ps body lang retries backoff rest last_err (sleep (backoff ^ (i + 1)) w1)
          else if 400 \<le> status \<and> status < 600
          then wiki_attempts ps body lang retries backoff rest (Some (HTTPError status))
                 (sleep (backoff ^ (i + 1)) w1)
          else if json_ok
          then (Inr body, w1)
          else wiki_attempts ps body lang retries backoff rest (Some JSONDecodeError)
                 (sleep (backoff ^ (i + 1)) w1))"

definition wiki_request :: "params \<Rightarrow> 'a \<Rightarrow> pystr \<Rightarrow> nat \<Rightarrow> rat \<Rightarrow> world \<Rightarrow> (error + 'a) \<times> world" where
  "wiki_request ps body lang retries backoff w =
     wiki_attempts ps body lang retries backoff [0..<retries] None w"

text \<open>
  \<^verbatim>\<open>search_wikipedia_title\<close>, with the defaults \<^verbatim>\<open>retries=3, backoff=1.5\<close>. \<open>wiki_titles\<close>
  is \<^verbatim>\<open>data[1]\<close> of the answer, or the empty list when the answer has no second element.
\<close>

definition search_wikipedia_title :: "pystr \<Rightarrow> pystr \<Rightarrow> world \<Rightarrow> (error + pystr option) \<times> world" where
  "search_wikipedia_title query lang w =
     (case wiki_request (OpenSearch query) (wiki_titles w lang query) lang 3 (3 / 2) w of
        (Inl e, w1) \<Rightarrow> (Inl e, w1)
      | (Inr titles, w1) \<Rightarrow> (Inr (case titles of [] \<Rightarrow> None | t # ts \<Rightarrow> Some t), w1))"

text \<open>
  \<^verbatim>\<open>get_wikipedia_article\<close>. \<open>wiki_pages\<close> is \<^verbatim>\<open>query.pages\<close> of the answer, in the order of
  the dictionary, empty when a key is absent. The first argument is the number of nested
  calls the interpreter still allows; at none, the call is a \<^verbatim>\<open>RecursionError\<close>.
  \<^verbatim>\<open>not alt\<close> holds for \<^verbatim>\<open>None\<close> and for the empty title.
\<close>

fun get_wikipedia_article ::
  "nat \<Rightarrow> pystr \<Rightarrow> pystr \<Rightarrow> bool \<Rightarrow> world \<Rightarrow> (error + pystr \<times> pystr) \<times> world" where
  "get_wikipedia_article 0 title lang intro_only w = (Inl RecursionError, w)"
| "get_wikipedia_article (Suc depth) title lang intro_only w =
     (case wiki_request (Query title intro_only) (wiki_pages w lang title intro_only) lang 3 (3 / 2) w of
        (Inl e, w1) \<Rightarrow> (Inl e, w1)
      | (Inr pages, w1) \<Rightarrow>
          (case pages of
             [] \<Rightarrow>
               (case search_wikipedia_title title lang w1 of
                  (Inl e, w2) \<Rightarrow> (Inl e, w2)
                | (Inr alt, w2) \<Rightarrow>
                    (case alt of
                       None \<Rightarrow> (Inl (NotFound title), w2)
                     | Some a \<Rightarrow>
                         if a = [] then (Inl (NotFound title), w2)
                         else get_wikipedia_article depth a lang intro_only w2))
           | (key, pg) # others \<Rightarrow>
               if page_missing pg = Some [] \<or> page_pageid pg = Some (- 1)
               then (case search_wikipedia_title title lang w1 of
                       (Inl e, w2) \<Rightarrow> (Inl e, w2)
                     | (Inr alt, w2) \<Rightarrow>
                         (case alt of
                            None \<Rightarrow> (Inl (PageNotFound title), w2)
                          | Some a \<Rightarrow>
                              if a = [] then (Inl (PageNotFound title), w2)
                              else get_wikipedia_article depth a lang intro_only w2))
               else (let normalized_title = (case page_title pg of None \<Rightarrow> title | Some t \<Rightarrow> t);
                         extract = (case page_extract pg of None \<Rightarrow> [] | Some x \<Rightarrow> x)
                     in if extract = [] then (Inl (NoContent normalized_title), w1)
                        else (Inr (normalized_title, extract), w1))))"

definition truncate_for_prompt :: "pystr \<Rightarrow> nat \<Rightarrow> pystr" where
  "truncate_for_prompt text max_chars =
     (if length text \<le> max_chars then text
      else take max_chars text @ [10, 10] @ py ''[Texto truncado por comprimento.]'')"

section \<open>Gemini, with throttle and retry\<close>

text \<open>
  \<^verbatim>\<open>_client_throttle_sleep\<close>; \<^verbatim>\<open>time.time()\<close> is read before and after the sleep. Its
  \<^verbatim>\<open>time.sleep\<close> returns: \<^verbatim>\<open>_last_call_ts\<close> is 0 or a time read earlier from the same
  clock, so the wait is above 0 and at most \<^verbatim>\<open>min_interval\<close>, which is at most 60
  (\<open>throttle_wait_returns\<close> below).
\<close>

definition client_throttle_sleep :: "config \<Rightarrow> world \<Rightarrow> world" where
  "client_throttle_sleep cfg w =
     (if \<not> ENFORCE_CLIENT_THROTTLE cfg \<or> FREE_TIER_RPM cfg \<le> 0 then w
      else (let min_interval = 60 / of_int (FREE_TIER_RPM cfg);
                now = clock w;
                elapsed = now - last_call_ts w;
                w1 = (if elapsed < min_interval
                      then (let wait_s = min_interval - elapsed
                            in sleep wait_s (print_event (ThrottleWait wait_s (FREE_TIER_RPM cfg)) w))
                      else w)
            in w1\<lparr>last_call_ts := clock w1\<rparr>))"

text \<open>
  \<^verbatim>\<open>model.generate_content(prompt)\<close>: the call is issued at the current time, recorded
  with the model's name and the prompt, and takes the number of milliseconds the
  stream gives with its reply.
\<close>

definition generate_content :: "pystr \<Rightarrow> pystr \<Rightarrow> world \<Rightarrow> gen_reply \<times> world" where
  "generate_content model prompt w =
     (case gen w (gen_pos w) of
        (reply, ms) \<Rightarrow>
          (reply, w\<lparr>gen_pos := Suc (gen_pos w),
                     gen_calls := gen_calls w @ [(clock w, model, prompt)],
                     clock := clock w + of_nat ms / 1000\<rparr>))"

text \<open>
  The \<^verbatim>\<open>try\<close> block of one attempt after the call: the provider's exception, the
  \<^verbatim>\<open>RuntimeError\<close> for a response that is false or whose text is \<^verbatim>\<open>None\<close> or empty, or
  \<^verbatim>\<open>resp.text.strip()\<close>.
\<close>

definition attempt_result :: "gen_reply \<Rightarrow> gen_exc + pystr" where
  "attempt_result reply =
     (case reply of
        Raises m \<Rightarrow> Inl (ProviderError m)
      | Responds None \<Rightarrow> Inl EmptyResponse
      | Responds (Some t) \<Rightarrow> if t = [] then Inl EmptyResponse else Inr (strip_chars is_space t))"

text \<open>
  \<^verbatim>\<open>call_gemini_with_retry\<close>: the loop \<^verbatim>\<open>for attempt in range(1, max_retries + 1)\<close> over
  the list of its attempt numbers. The \<^verbatim>\<open>print\<close> and the \<^verbatim>\<open>time.sleep\<close> of lines 176 to 178
  stand in the \<^verbatim>\<open>except\<close> branch, so an exception of theirs is not caught there: it ends
  the loop and leaves the function.
\<close>

fun gemini_attempts ::
  "config \<Rightarrow> pystr \<Rightarrow> pystr \<Rightarrow> nat \<Rightarrow> nat list \<Rightarrow> world \<Rightarrow> (error + pystr) \<times> world" where
  "gemini_attempts cfg model prompt max_retries [] w = (Inl (GenFailed max_retries), w)"
| "gemini_attempts cfg model prompt max_retries (attempt # rest) w =
     (case generate_content model prompt (client_throttle_sleep cfg w) of
        (reply, w2) \<Rightarrow>
          (case attempt_result reply of
             Inr text \<Rightarrow> (Inr text, w2)
           | Inl e \<Rightarrow>
               (let msg = gen_exc_str e;
                    retry_s = retry_seconds msg attempt
                in case print_line (RetryWait e retry_s attempt max_retries) w2 of
                     (Inl err, w3) \<Rightarrow> (Inl err, w3)
                   | (Inr u, w3) \<Rightarrow>
                       (case time_sleep retry_s w3 of
                          (Inl err, w4) \<Rightarrow> (Inl err, w4)
                        | (Inr u2, w4) \<Rightarrow> gemini_attempts cfg model prompt max_retries rest w4))))"

definition call_gemini_with_retry ::
  "config \<Rightarrow> pystr \<Rightarrow> pystr \<Rightarrow> nat \<Rightarrow> world \<Rightarrow> (error + pystr) \<times> world" where
  "call_gemini_with_retry cfg model prompt max_retries w =
     gemini_attempts cfg model prompt max_retries [1..<max_retries + 1] w"

text \<open>
  \<^verbatim>\<open>generate_text_with_gemini\<close>, with its two prompts; \<^verbatim>\<open>genai.GenerativeModel(model_name)\<close>
  only builds an object, the model's name goes with each call. Its \<^verbatim>\<open>except Exception\<close>
  catches whatever leaves the first call, also the exception of a \<^verbatim>\<open>print\<close> or a
  \<^verbatim>\<open>time.sleep\<close> of the retry branch.
\<close>

definition primary_prompt :: "pystr \<Rightarrow> pystr" where
  "primary_prompt base_text =
     py ''Reescreva o texto abaixo de forma objetiva, neutra e enciclop'' @ [233] @ py ''dica,'' @ [10] @
     py ''sem incluir t'' @ [237] @ py ''tulos ou se'' @ [231, 245] @ py ''es, sem linguagem promocional,'' @ [10] @
     py ''sem estrutura de artigo did'' @ [225] @ py ''tico.'' @ [10] @
     py ''Estilo desejado: semelhante ao da Wikip'' @ [233] @ py ''dia.'' @ [10, 10] @
     py ''Texto de base:'' @ [10] @ base_text @ [10]"

definition alternate_prompt :: "pystr \<Rightarrow> pystr" where
  "alternate_prompt base_text =
     py ''Reformule de modo autoral e objetivo o texto a seguir, mantendo precis'' @ [227] @ py ''o:'' @
     [10, 10] @ base_text"

definition generate_text_with_gemini :: "config \<Rightarrow> pystr \<Rightarrow> pystr \<Rightarrow> world \<Rightarrow> (error + pystr) \<times> world" where
  "generate_text_with_gemini cfg base_text model_name w =
     (case call_gemini_with_retry cfg model_name (primary_prompt base_text) 6 w of
        (Inr text, w1) \<Rightarrow> (Inr text, w1)
      | (Inl e, w1) \<Rightarrow> call_gemini_with_retry cfg model_name (alternate_prompt base_text) 6 w1)"

section \<open>Files\<close>

text \<open>\<^verbatim>\<open>pathlib.Path(path).mkdir(parents=True, exist_ok=True)\<close>: a directory is made or not.\<close>

definition ensure_dir :: "pystr \<Rightarrow> world \<Rightarrow> (error + unit) \<times> world" where
  "ensure_dir path w =
     (case fs w (fs_pos w) of
        FsOk \<Rightarrow> (Inr (), w\<lparr>fs_pos := Suc (fs_pos w)\<rparr>)
      | FsFails m \<Rightarrow> (Inl (OSError m), w\<lparr>fs_pos := Suc (fs_pos w)\<rparr>)
      | FsPartial n m \<Rightarrow> (Inl (OSError m), w\<lparr>fs_pos := Suc (fs_pos w)\<rparr>))"

text \<open>
  \<^verbatim>\<open>with open(path, "w", encoding="utf-8") as f: f.write(data)\<close>. When \<^verbatim>\<open>open\<close> has
  returned, the file exists and is empty; \<^verbatim>\<open>f.write\<close> encodes its whole argument before
  it writes, and UTF-8 has no encoding of a lone surrogate (a code point from U+D800 to
  U+DFFF, which a JSON escape can bring into a text), so such a text raises
  \<^verbatim>\<open>UnicodeEncodeError\<close> and the file stays empty.
\<close>

definition has_surrogate :: "pystr \<Rightarrow> bool" where
  "has_surrogate data = list_ex (\<lambda>c. 55296 \<le> c \<and> c \<le> 57343) data"

definition write_file :: "pystr \<Rightarrow> pystr \<Rightarrow> world \<Rightarrow> (error + unit) \<times> world" where
  "write_file path data w =
     (case fs w (fs_pos w) of
        FsOk \<Rightarrow>
          (if has_surrogate data
           then (Inl UnicodeEncodeError, w\<lparr>fs_pos := Suc (fs_pos w), files := (files w)(path \<mapsto> [])\<rparr>)
           else (Inr (), w\<lparr>fs_pos := Suc (fs_pos w), files := (files w)(path \<mapsto> data)\<rparr>))
      | FsFails m \<Rightarrow> (Inl (OSError m), w\<lparr>fs_pos := Suc (fs_pos w)\<rparr>)
      | FsPartial n m \<Rightarrow>
          (if has_surrogate data
           then (Inl UnicodeEncodeError, w\<lparr>fs_pos := Suc (fs_pos w), files := (files w)(path \<mapsto> [])\<rparr>)
           else (Inl (OSError m), w\<lparr>fs_pos := Suc (fs_pos w), files := (files w)(path \<mapsto> take n data)\<rparr>)))"

text \<open>\<^verbatim>\<open>os.path.join\<close> of two components, on a system whose separator is the slash.\<close>

definition path_join :: "pystr \<Rightarrow> pystr \<Rightarrow> pystr" where
  "path_join a b =
     (case b of
        [] \<Rightarrow> (if a = [] \<or> last a = 47 then a else a @ [47])
      | c # cs \<Rightarrow> if c = 47 then b else if a = [] \<or> last a = 47 then a @ b else a @ [47] @ b)"

definition original_path :: "pystr \<Rightarrow> pystr \<Rightarrow> pystr" where
  "original_path base_dir base = path_join base_dir (base @ py ''__original.txt'')"

definition ia_path :: "pystr \<Rightarrow> pystr \<Rightarrow> pystr" where
  "ia_path base_dir base = path_join base_dir (base @ py ''__ia.txt'')"

definition save_texts :: "pystr \<Rightarrow> pystr \<Rightarrow> pystr \<Rightarrow> pystr \<Rightarrow> world \<Rightarrow> (error + unit) \<times> world" where
  "save_texts base_dir title original generated w =
     (case ensure_dir base_dir w of
        (Inl e, w1) \<Rightarrow> (Inl e, w1)
      | (Inr u, w1) \<Rightarrow>
          (let base = slugify (unicode_alnum w1) title
           in case write_file (original_path base_dir base) original w1 of
                (Inl e, w2) \<Rightarrow> (Inl e, w2)
              | (Inr u2, w2) \<Rightarrow>
                  (case write_file (ia_path base_dir base) generated w2 of
                     (Inl e, w3) \<Rightarrow> (Inl e, w3)
                   | (Inr u3, w3) \<Rightarrow> print_line (Saved base) w3)))"

section \<open>The pipeline\<close>

text \<open>The \<^verbatim>\<open>try\<close> block of \<^verbatim>\<open>collect_and_generate_for_title\<close>.\<close>

definition topic_pipeline ::
  "config \<Rightarrow> pystr \<Rightarrow> pystr \<Rightarrow> bool \<Rightarrow> pystr \<Rightarrow> world \<Rightarrow> (error + unit) \<times> world" where
  "topic_pipeline cfg raw_title lang intro_only model_name w =
     (case get_wikipedia_article (recursion_limit cfg) raw_title lang intro_only w of
        (Inl e, w1) \<Rightarrow> (Inl e, w1)
      | (Inr (norm_title, original_text), w1) \<Rightarrow>
          (let prompt_text = truncate_for_prompt original_text MAX_CHARS_PROMPT
           in case generate_text_with_gemini cfg prompt_text model_name w1 of
                (Inl e, w2) \<Rightarrow> (Inl e, w2)
              | (Inr generated, w2) \<Rightarrow> save_texts SAVE_DIR norm_title original_text generated w2))"

text \<open>
  \<^verbatim>\<open>collect_and_generate_for_title\<close>: the first \<^verbatim>\<open>print\<close>, which stands before the \<^verbatim>\<open>try\<close>;
  the \<^verbatim>\<open>try\<close> block; and the \<^verbatim>\<open>except Exception\<close> branch, which prints the topic and the
  exception. An exception of either \<^verbatim>\<open>print\<close> is not caught and leaves the function.
\<close>

definition collect_and_generate_for_title ::
  "config \<Rightarrow> pystr \<Rightarrow> pystr \<Rightarrow> bool \<Rightarrow> pystr \<Rightarrow> world \<Rightarrow> (error + unit) \<times> world" where
  "collect_and_generate_for_title cfg raw_title lang intro_only model_name w =
     (case print_line (Collecting raw_title) w of
        (Inl err, w0) \<Rightarrow> (Inl err, w0)
      | (Inr u0, w0) \<Rightarrow>
          (case topic_pipeline cfg raw_title lang intro_only model_name w0 of
             (Inl e, w1) \<Rightarrow> print_line (Failed raw_title e) w1
           | (Inr u, w1) \<Rightarrow> (Inr (), w1)))"

text \<open>
  The loop of \<^verbatim>\<open>main\<close> over its list of articles, here any list, once the key is
  configured and the model is chosen. Nothing in \<^verbatim>\<open>main\<close> catches an exception that
  leaves \<^verbatim>\<open>collect_and_generate_for_title\<close>: it ends the loop and the program.
\<close>

fun main_loop :: "config \<Rightarrow> pystr list \<Rightarrow> pystr \<Rightarrow> world \<Rightarrow> (error + unit) \<times> world" where
  "main_loop cfg [] model_name w = (Inr (), w)"
| "main_loop cfg (t # ts) model_name w =
     (case collect_and_generate_for_title cfg t WIKI_LANG INTRO_ONLY model_name w of
        (Inl e, w1) \<Rightarrow> (Inl e, w1)
      | (Inr u, w1) \<Rightarrow> main_loop cfg ts model_name w1)"

section \<open>What the properties speak of\<close>

text \<open>
  A retry hint, said without the matcher: \<open>s\<close> starts with the words \<^verbatim>\<open>retry in\<close> in
  any case, then whitespace, then the unsigned decimal number \<open>g\<close>, then the letter s.
\<close>

definition decimal_text :: "pystr \<Rightarrow> bool" where
  "decimal_text g \<longleftrightarrow>
     (\<exists>ip. g = ip \<and> ip \<noteq> [] \<and> list_all is_digit ip) \<or>
     (\<exists>ip fp. g = ip @ [46] @ fp \<and> ip \<noteq> [] \<and> list_all is_digit ip \<and> fp \<noteq> [] \<and> list_all is_digit fp)"

definition retry_hint :: "pystr \<Rightarrow> pystr \<Rightarrow> bool" where
  "retry_hint s g \<longleftrightarrow>
     (\<exists>kw ws c rest.
        s = kw @ ws @ g @ [c] @ rest \<and> list_all2 ci_lit (py ''retry in'') kw \<and>
        ws \<noteq> [] \<and> list_all is_space ws \<and> decimal_text g \<and> ci_lit 115 c)"

text \<open>The end of the pattern, after the integer part: the optional fraction and the s.\<close>

definition tail_match :: "pystr \<Rightarrow> pystr \<Rightarrow> pystr option" where
  "tail_match ip s2 =
     (case lit (\<lambda>c. c = 46)
             (plus_g is_digit (\<lambda>fp s3.
                lit (ci_lit 115) (\<lambda>s4. Some (ip @ [46] @ fp)) s3)) s2 of
        Some g \<Rightarrow> Some g
      | None \<Rightarrow> lit (ci_lit 115) (\<lambda>s4. Some ip) s2)"

text \<open>
  The outcomes of a \<^verbatim>\<open>requests.get\<close> after which \<^verbatim>\<open>wiki_request\<close> goes to its next
  attempt: the call raised, the status is 403 or any other from 400 to 599, or the body
  is not JSON.
\<close>

fun retried :: "http_outcome \<Rightarrow> bool" where
  "retried (GetRaises m) = True"
| "retried (Response status json_ok) = ((400 \<le> status \<and> status < 600) \<or> \<not> json_ok)"

text \<open>
  The replies after which \<^verbatim>\<open>call_gemini_with_retry\<close> goes to its \<^verbatim>\<open>except\<close> branch: the
  call raised, or the response is false, or its text is \<^verbatim>\<open>None\<close> or empty.
\<close>

fun failing :: "gen_reply \<Rightarrow> bool" where
  "failing (Raises m) = True"
| "failing (Responds None) = True"
| "failing (Responds (Some t)) = (t = [])"

text \<open>
  The \<^verbatim>\<open>except\<close> branch of attempt \<open>attempt\<close> returns after this reply, if the reply sends
  the loop there: the line of lines 176 and 177 can be printed, and the wait chosen is
  one that \<^verbatim>\<open>time.sleep\<close> takes.
\<close>

definition retry_returns :: "world \<Rightarrow> nat \<Rightarrow> nat \<Rightarrow> gen_reply \<Rightarrow> bool" where
  "retry_returns w max_retries attempt reply =
     (case attempt_result reply of
        Inr text \<Rightarrow> True
      | Inl e \<Rightarrow>
          \<not> unprintable w (RetryWait e (retry_seconds (gen_exc_str e) attempt) attempt max_retries) \<and>
          retry_seconds (gen_exc_str e) attempt \<le> SLEEP_MAX)"

text \<open>The prompts of the calls made from a given length of the call log on.\<close>

definition prompts_since :: "nat \<Rightarrow> world \<Rightarrow> pystr list" where
  "prompts_since n w = map (\<lambda>c. snd (snd c)) (drop n (gen_calls w))"

text \<open>
  What the Wikipedia functions leave alone: every field but the clock, the list of
  sleeps, the cursor of the transport and the log of requests.
\<close>

definition wiki_frame :: "world \<Rightarrow> world \<Rightarrow> bool" where
  "wiki_frame w w' \<longleftrightarrow>
     http w' = http w \<and> wiki_pages w' = wiki_pages w \<and> wiki_titles w' = wiki_titles w \<and>
     gen w' = gen w \<and> gen_pos w' = gen_pos w \<and> gen_calls w' = gen_calls w \<and>
     last_call_ts w' = last_call_ts w \<and> fs w' = fs w \<and> fs_pos w' = fs_pos w \<and>
     files w' = files w \<and> unicode_alnum w' = unicode_alnum w \<and> stdout w' = stdout w \<and>
     unprintable w' = unprintable w"

text \<open>
  What the generation functions leave alone: the fields of Wikipedia and of the file
  system, and the stream of the model's replies. What they print is about the throttle
  and the retries.
\<close>

fun is_gen_event :: "event \<Rightarrow> bool" where
  "is_gen_event (ThrottleWait wait_s rpm) = True"
| "is_gen_event (RetryWait e retry_s attempt max_retries) = True"
| "is_gen_event ev = False"

definition gen_frame :: "world \<Rightarrow> world \<Rightarrow> bool" where
  "gen_frame w w' \<longleftrightarrow>
     http w' = http w \<and> http_pos w' = http_pos w \<and> gets w' = gets w \<and>
     wiki_pages w' = wiki_pages w \<and> wiki_titles w' = wiki_titles w \<and>
     gen w' = gen w \<and> fs w' = fs w \<and> fs_pos w' = fs_pos w \<and>
     files w' = files w \<and> unicode_alnum w' = unicode_alnum w \<and>
     unprintable w' = unprintable w \<and>
     (\<exists>evs. stdout w' = stdout w @ evs \<and> list_all is_gen_event evs)"

text \<open>The calls made between two worlds all carry a prompt of the set \<open>S\<close>.\<close>

definition calls_with :: "pystr set \<Rightarrow> world \<Rightarrow> world \<Rightarrow> bool" where
  "calls_with S w w' \<longleftrightarrow>
     (\<exists>cs. gen_calls w' = gen_calls w @ cs \<and> list_all (\<lambda>c. snd (snd c) \<in> S) cs)"

text \<open>
  Times that are at least \<open>d\<close> apart, each from the one before; and the state of the
  throttle between two calls: the calls so far are that far apart, and the last of
  them was made at \<^verbatim>\<open>_last_call_ts\<close>.
\<close>

fun spaced :: "rat \<Rightarrow> rat list \<Rightarrow> bool" where
  "spaced d (a # b # ts) = (a + d \<le> b \<and> spaced d (b # ts))"
| "spaced d ts = True"

definition min_interval :: "config \<Rightarrow> rat" where
  "min_interval cfg = 60 / of_int (FREE_TIER_RPM cfg)"

definition throttled :: "config \<Rightarrow> world \<Rightarrow> bool" where
  "throttled cfg w \<longleftrightarrow>
     spaced (min_interval cfg) (map fst (gen_calls w)) \<and>
     (gen_calls w = [] \<or> fst (last (gen_calls w)) = last_call_ts w)"



section \<open>Worlds to run the program in\<close>

text \<open>
  A world where every request is answered at once with status 200 and JSON, no page
  and no search hit exists, the model answers \<^verbatim>\<open>ok\<close> after half a second, every file
  operation succeeds, and the standard output takes every line; and the module's
  configuration. The examples below change
  single fields of it.
\<close>

definition ascii_alnum :: "int \<Rightarrow> bool" where
  "ascii_alnum c \<longleftrightarrow> (48 \<le> c \<and> c \<le> 57) \<or> (65 \<le> c \<and> c \<le> 90) \<or> (97 \<le> c \<and> c \<le> 122)"

definition calm_world :: world where
  "calm_world =
     \<lparr>clock = 1000, sleeps = [], http = (\<lambda>n. Response 200 True), http_pos = 0, gets = [],
      wiki_pages = (\<lambda>lang title intro_only. []), wiki_titles = (\<lambda>lang query. []),
      gen = (\<lambda>n. (Responds (Some (py ''ok'')), 500)), gen_pos = 0, gen_calls = [],
      last_call_ts = 0, fs = (\<lambda>n. FsOk), fs_pos = 0, files = Map.empty,
      unicode_alnum = ascii_alnum, stdout = [], unprintable = (\<lambda>ev. False)\<rparr>"

definition module_config :: config where
  "module_config = \<lparr>FREE_TIER_RPM = 15, ENFORCE_CLIENT_THROTTLE = True, recursion_limit = 900\<rparr>"

text \<open>A page that exists, with a title and a body; and a page object marked missing.\<close>

definition found_page :: "pystr \<Rightarrow> pystr \<Rightarrow> (pystr \<times> page) list" where
  "found_page title body =
     [(py ''42'', \<lparr>page_missing = None, page_pageid = Some 42, page_title = Some title,
                   page_extract = Some body\<rparr>)]"

definition missing_page :: "pystr \<Rightarrow> (pystr \<times> page) list" where
  "missing_page title =
     [(py ''-1'', \<lparr>page_missing = Some [], page_pageid = None, page_title = Some title,
                   page_extract = None\<rparr>)]"

text \<open>A network where every request times out, and one that answers 503 twice.\<close>

definition dead_network :: world where
  "dead_network = calm_world\<lparr>http := (\<lambda>n. GetRaises (py ''Read timed out.''))\<rparr>"

definition flaky_network :: world where
  "flaky_network = calm_world\<lparr>http := (\<lambda>n. if n < 2 then Response 503 True else Response 200 True)\<rparr>"

text \<open>
  Wikipedias for the examples: one where every title leads to the page \<^verbatim>\<open>Brasil\<close>, with
  a body or with none; and one where \<^verbatim>\<open>Bresil\<close> is missing and found by search as
  \<^verbatim>\<open>Brazil\<close>, which is missing too and found by search as \<^verbatim>\<open>Brasil\<close>, which exists.
\<close>

definition brasil_world :: world where
  "brasil_world =
     calm_world\<lparr>wiki_pages := (\<lambda>lang title intro_only. found_page (py ''Brasil'') (py ''O Brasil''))\<rparr>"

definition blank_world :: world where
  "blank_world =
     calm_world\<lparr>wiki_pages := (\<lambda>lang title intro_only. found_page (py ''Brasil'') [])\<rparr>"

definition two_hop_world :: world where
  "two_hop_world =
     calm_world\<lparr>wiki_pages := (\<lambda>lang title intro_only.
                    if title = py ''Brasil'' then found_page (py ''Brasil'') (py ''O Brasil'')
                    else missing_page title),
                 wiki_titles := (\<lambda>lang query.
                    if query = py ''Bresil'' then [py ''Brazil'']
                    else if query = py ''Brazil'' then [py ''Brasil'']
                    else [])\<rparr>"

text \<open>
  The Wikipedia of \<open>brasil_world\<close> with a disk where the third operation (the write of the
  generated file) fails.
\<close>

definition full_disk :: world where
  "full_disk = brasil_world\<lparr>fs := (\<lambda>n. if n = 2 then FsFails (py ''No space left on device'') else FsOk)\<rparr>"

text \<open>The Wikipedia of \<open>brasil_world\<close> with a model whose answer is a single space.\<close>

definition blank_model :: world where
  "blank_model = brasil_world\<lparr>gen := (\<lambda>n. (Responds (Some (py '' '')), 500))\<rparr>"






text \<open>A Wikipedia whose one page has a body of 12001 characters, one above the limit.\<close>

definition long_world :: world where
  "long_world =
     calm_world\<lparr>wiki_pages := (\<lambda>lang title intro_only. found_page (py ''Brasil'') (replicate 12001 97))\<rparr>"

text \<open>
  A Wikipedia with the pages \<^verbatim>\<open>Brasil\<close> and \<^verbatim>\<open>Chile\<close> and nothing else, no search hit.
\<close>

definition two_page_world :: world where
  "two_page_world =
     calm_world\<lparr>wiki_pages := (\<lambda>lang title intro_only.
                    if title = py ''Brasil'' then found_page (py ''Brasil'') (py ''O Brasil'')
                    else if title = py ''Chile'' then found_page (py ''Chile'') (py ''O Chile'')
                    else [])\<rparr>"



text \<open>
  The Wikipedia of \<open>two_page_world\<close> with a model whose second reply is an error that says
  when to retry.
\<close>

definition hurried_world :: world where
  "hurried_world =
     two_page_world\<lparr>gen := (\<lambda>n. if n = 1 then (Raises (py ''429 retry in 2s''), 100)
                                  else (Responds (Some (py ''ok'')), 500))\<rparr>"

section \<open>Properties\<close>

subsection \<open>The retry pattern\<close>

lemma star_g_greedy:
  assumes "\<And>a c cs. P c \<Longrightarrow> k a (c # cs) = None"
  shows "star_g P k acc s = k (acc @ takeWhile P s) (dropWhile P s)"
  using assms by (induction s arbitrary: acc) (auto split: option.splits)

lemma plus_g_greedy:
  assumes "\<And>a c cs. P c \<Longrightarrow> k a (c # cs) = None"
  shows "plus_g P k s = (if takeWhile P s = [] then None else k (takeWhile P s) (dropWhile P s))"
proof (cases s)
  case Nil
  then show ?thesis by (simp add: plus_g_def)
next
  case (Cons c cs)
  have "star_g P k [c] cs = k ([c] @ takeWhile P cs) (dropWhile P cs)"
    by (rule star_g_greedy) (rule assms)
  then show ?thesis by (simp add: Cons plus_g_def)
qed

lemma lits_iff:
  "lits ps k s = (if length ps \<le> length s \<and> list_all2 ci_lit ps (take (length ps) s) then k (drop (length ps) s) else None)"
proof (induction ps arbitrary: s)
  case Nil
  then show ?case by simp
next
  case (Cons p ps)
  then show ?case by (cases s) auto
qed

lemma digit_not_space: "is_digit c \<Longrightarrow> \<not> is_space c"
  by (auto simp: is_digit_def is_space_def)

lemma digit_not_dot: "is_digit c \<Longrightarrow> c \<noteq> 46"
  by (auto simp: is_digit_def)

lemma digit_not_s: "is_digit c \<Longrightarrow> \<not> ci_lit 115 c"
  by (auto simp: is_digit_def ci_lit_def)

lemma dot_not_s: "\<not> ci_lit 115 46"
  by (simp add: ci_lit_def)

lemma tail_match_digit: "is_digit c \<Longrightarrow> tail_match ip (c # cs) = None"
  by (simp add: tail_match_def digit_not_dot digit_not_s)

lemma tail_match_closed:
  "tail_match ip s2 =
     (case s2 of
        [] \<Rightarrow> None
      | c # cs \<Rightarrow>
          if c = 46 then
            (let fp = takeWhile is_digit cs in
             case dropWhile is_digit cs of
               [] \<Rightarrow> None
             | d # ds \<Rightarrow> if fp \<noteq> [] \<and> ci_lit 115 d then Some (ip @ [46] @ fp) else None)
          else if ci_lit 115 c then Some ip else None)"
proof (cases s2)
  case Nil
  then show ?thesis by (simp add: tail_match_def)
next
  case (Cons c cs)
  have pg: "plus_g is_digit (\<lambda>fp. lit (ci_lit 115) (\<lambda>s4. Some (ip @ 46 # fp))) cs =
    (if takeWhile is_digit cs = [] then None
     else lit (ci_lit 115) (\<lambda>s4. Some (ip @ 46 # takeWhile is_digit cs)) (dropWhile is_digit cs))"
    by (rule plus_g_greedy) (simp add: digit_not_s)
  show ?thesis
  proof (cases "dropWhile is_digit cs")
    case Nil
    show ?thesis
      unfolding Cons tail_match_def by (simp add: pg dot_not_s Let_def Nil)
  next
    case D: (Cons d ds)
    show ?thesis
      unfolding Cons tail_match_def by (simp add: pg dot_not_s Let_def D)
  qed
qed

lemma retry_pattern_closed:
  "retry_pattern s =
     (if 8 \<le> length s \<and> list_all2 ci_lit (py ''retry in'') (take 8 s)
      then (let s0 = drop 8 s; ws = takeWhile is_space s0; s1 = dropWhile is_space s0;
                ip = takeWhile is_digit s1; s2 = dropWhile is_digit s1
            in if ws = [] \<or> ip = [] then None else tail_match ip s2)
      else None)"
proof -
  have len: "length (py ''retry in'') = 8" by (simp add: py_def)
  have inner: "\<And>s1. plus_g is_digit (\<lambda>ip s2. tail_match ip s2) s1 =
     (if takeWhile is_digit s1 = [] then None else tail_match (takeWhile is_digit s1) (dropWhile is_digit s1))"
    by (rule plus_g_greedy) (simp add: tail_match_digit)
  have outer: "\<And>s0. plus_g is_space (\<lambda>ws s1. plus_g is_digit (\<lambda>ip s2. tail_match ip s2) s1) s0 =
     (if takeWhile is_space s0 = [] then None
      else plus_g is_digit (\<lambda>ip s2. tail_match ip s2) (dropWhile is_space s0))"
    by (rule plus_g_greedy) (auto simp: plus_g_def digit_not_space)
  have "retry_pattern s = lits (py ''retry in'')
       (plus_g is_space (\<lambda>ws s1. plus_g is_digit (\<lambda>ip s2. tail_match ip s2) s1)) s"
    by (simp add: retry_pattern_def tail_match_def)
  also have "\<dots> = (if 8 \<le> length s \<and> list_all2 ci_lit (py ''retry in'') (take 8 s)
      then plus_g is_space (\<lambda>ws s1. plus_g is_digit (\<lambda>ip s2. tail_match ip s2) s1) (drop 8 s)
      else None)"
    by (simp only: lits_iff len)
  also have "\<dots> = (if 8 \<le> length s \<and> list_all2 ci_lit (py ''retry in'') (take 8 s)
      then (if takeWhile is_space (drop 8 s) = [] then None
            else plus_g is_digit (\<lambda>ip s2. tail_match ip s2) (dropWhile is_space (drop 8 s)))
      else None)"
    by (simp only: outer)
  finally show ?thesis
    by (simp add: inner Let_def)
qed


lemma run_split:
  assumes "list_all P xs" and "\<not> P y"
  shows "takeWhile P (xs @ y # ys) = xs" and "dropWhile P (xs @ y # ys) = y # ys"
  using assms by (induction xs) auto

lemma retry_pattern_hint: "retry_pattern s = Some g \<Longrightarrow> retry_hint s g"
proof -
  assume m: "retry_pattern s = Some g"
  define s0 where "s0 = drop 8 s"
  define ws where "ws = takeWhile is_space s0"
  define s1 where "s1 = dropWhile is_space s0"
  define ip where "ip = takeWhile is_digit s1"
  define s2 where "s2 = dropWhile is_digit s1"
  from m have kw: "8 \<le> length s" "list_all2 ci_lit (py ''retry in'') (take 8 s)"
    and ne: "ws \<noteq> []" "ip \<noteq> []" and tm: "tail_match ip s2 = Some g"
    by (auto simp: retry_pattern_closed Let_def s0_def ws_def s1_def ip_def s2_def split: if_splits)
  have s: "s = take 8 s @ ws @ ip @ s2"
    by (simp add: s0_def ws_def s1_def ip_def s2_def)
  have wsp: "list_all is_space ws"
    unfolding ws_def list_all_iff by (auto dest: set_takeWhileD)
  have ipd: "list_all is_digit ip"
    unfolding ip_def list_all_iff by (auto dest: set_takeWhileD)
  from tm obtain c cs where s2: "s2 = c # cs"
    by (cases s2) (auto simp: tail_match_closed)
  show ?thesis
  proof (cases "c = 46")
    case True
    with tm s2 obtain d ds where d: "dropWhile is_digit cs = d # ds"
      and fp: "takeWhile is_digit cs \<noteq> []" "ci_lit 115 d"
      and g: "g = ip @ [46] @ takeWhile is_digit cs"
      by (auto simp: tail_match_closed Let_def split: list.splits if_splits)
    have fpd: "list_all is_digit (takeWhile is_digit cs)"
      unfolding list_all_iff by (auto dest: set_takeWhileD)
    have "cs = takeWhile is_digit cs @ d # ds"
      using d takeWhile_dropWhile_id[of is_digit cs] by simp
    with s s2 True g have "s = take 8 s @ ws @ g @ [d] @ ds" by simp
    moreover have "decimal_text g"
      unfolding decimal_text_def using g ne ipd fp fpd by blast
    ultimately show ?thesis
      unfolding retry_hint_def using kw ne wsp fp by blast
  next
    case False
    with tm s2 have c: "ci_lit 115 c" and g: "g = ip"
      by (auto simp: tail_match_closed split: if_splits)
    from s s2 g have "s = take 8 s @ ws @ g @ [c] @ cs" by simp
    moreover have "decimal_text g"
      unfolding decimal_text_def using g ne ipd by blast
    ultimately show ?thesis
      unfolding retry_hint_def using kw ne wsp c by blast
  qed
qed

lemma hint_retry_pattern: "retry_hint s g \<Longrightarrow> retry_pattern s = Some g"
proof -
  assume "retry_hint s g"
  then obtain kw ws c rest where s: "s = kw @ ws @ g @ [c] @ rest"
    and kw: "list_all2 ci_lit (py ''retry in'') kw"
    and ws: "ws \<noteq> []" "list_all is_space ws" and g: "decimal_text g" and c: "ci_lit 115 c"
    unfolding retry_hint_def by blast
  from kw have len: "length kw = 8"
    by (auto dest: list_all2_lengthD simp: py_def)
  from g obtain ip tl where gi: "g = ip @ tl" and ip: "ip \<noteq> []" "list_all is_digit ip"
    and tl: "tl = [] \<or> (\<exists>fp. tl = [46] @ fp \<and> fp \<noteq> [] \<and> list_all is_digit fp)"
    unfolding decimal_text_def by auto
  from ip obtain i ir where ipc: "ip = i # ir" and i: "is_digit i"
    by (cases ip) auto
  have nd: "\<not> is_digit c" using c digit_not_s by blast
  have t8: "take 8 s = kw" and d8: "drop 8 s = ws @ ip @ tl @ c # rest"
    using len by (simp_all add: s gi)
  have w1: "takeWhile is_space (drop 8 s) = ws"
    and w2: "dropWhile is_space (drop 8 s) = ip @ tl @ c # rest"
    unfolding d8 ipc using run_split[OF ws(2), of i] i digit_not_space by auto
  obtain y ys where tlc: "tl @ c # rest = y # ys" and y: "\<not> is_digit y"
    using tl nd by (auto simp: is_digit_def)
  have i1: "takeWhile is_digit (ip @ tl @ c # rest) = ip"
    and i2: "dropWhile is_digit (ip @ tl @ c # rest) = tl @ c # rest"
    unfolding tlc using run_split[OF ip(2) y] by auto
  have "tail_match ip (tl @ c # rest) = Some g"
  proof (cases "tl = []")
    case True
    then show ?thesis
      using c gi by (auto simp: tail_match_closed ci_lit_def)
  next
    case False
    with tl obtain fp where fp: "tl = [46] @ fp" "fp \<noteq> []" "list_all is_digit fp" by blast
    have "takeWhile is_digit (fp @ c # rest) = fp" "dropWhile is_digit (fp @ c # rest) = c # rest"
      using run_split[OF fp(3) nd] by auto
    then show ?thesis
      using fp c gi by (simp add: tail_match_closed)
  qed
  moreover have "8 \<le> length s" using len by (simp add: s)
  ultimately show ?thesis
    using kw ws ip by (simp add: retry_pattern_closed t8 w1 w2 i1 i2 Let_def)
qed

lemma retry_pattern_iff: "retry_pattern s = Some g \<longleftrightarrow> retry_hint s g"
  using retry_pattern_hint hint_retry_pattern by blast








lemma py_float_nonneg: "py_float g = Some v \<Longrightarrow> 0 \<le> v"
  by (auto simp: py_float_def Let_def split: list.splits if_splits)

lemma retry_seconds_nonneg: "0 \<le> retry_seconds msg attempt"
  by (auto simp: retry_seconds_def parse_retry_seconds_from_error_def py_float_nonneg
           split: option.splits)

subsection \<open>Frames of the basic operations\<close>

lemma sleep_fields [simp]:
  "clock (sleep d w) = clock w + d" "sleeps (sleep d w) = sleeps w @ [d]"
  "http (sleep d w) = http w" "http_pos (sleep d w) = http_pos w" "gets (sleep d w) = gets w"
  "wiki_pages (sleep d w) = wiki_pages w" "wiki_titles (sleep d w) = wiki_titles w"
  "gen (sleep d w) = gen w" "gen_pos (sleep d w) = gen_pos w" "gen_calls (sleep d w) = gen_calls w"
  "last_call_ts (sleep d w) = last_call_ts w" "fs (sleep d w) = fs w" "fs_pos (sleep d w) = fs_pos w"
  "files (sleep d w) = files w" "unicode_alnum (sleep d w) = unicode_alnum w"
  "stdout (sleep d w) = stdout w" "unprintable (sleep d w) = unprintable w"
  by (simp_all add: sleep_def)

lemma print_event_fields [simp]:
  "clock (print_event e w) = clock w" "sleeps (print_event e w) = sleeps w"
  "http (print_event e w) = http w" "http_pos (print_event e w) = http_pos w"
  "gets (print_event e w) = gets w"
  "wiki_pages (print_event e w) = wiki_pages w" "wiki_titles (print_event e w) = wiki_titles w"
  "gen (print_event e w) = gen w" "gen_pos (print_event e w) = gen_pos w"
  "gen_calls (print_event e w) = gen_calls w"
  "last_call_ts (print_event e w) = last_call_ts w" "fs (print_event e w) = fs w"
  "fs_pos (print_event e w) = fs_pos w"
  "files (print_event e w) = files w" "unicode_alnum (print_event e w) = unicode_alnum w"
  "stdout (print_event e w) = stdout w @ [e]" "unprintable (print_event e w) = unprintable w"
  by (simp_all add: print_event_def)

lemma print_line_unfold:
  "fst (print_line e w) = (if unprintable w e then Inl UnicodeEncodeError else Inr ())"
  "snd (print_line e w) = (if unprintable w e then w else print_event e w)"
  by (simp_all add: print_line_def)

lemma time_sleep_unfold:
  "fst (time_sleep d w) =
     (if d < 0 then Inl NegativeSleep else if SLEEP_MAX < d then Inl OverflowError else Inr ())"
  "snd (time_sleep d w) = (if 0 \<le> d \<and> d \<le> SLEEP_MAX then sleep d w else w)"
  by (auto simp: time_sleep_def)

text \<open>
  The calls of \<^verbatim>\<open>time.sleep\<close> that are written with \<open>sleep\<close> return. In \<^verbatim>\<open>wiki_request\<close>,
  both call sites leave \<^verbatim>\<open>retries\<close> at 3 and \<^verbatim>\<open>backoff\<close> at 1.5, so the arguments are 1.5,
  2.25 and 3.375. In \<^verbatim>\<open>_client_throttle_sleep\<close>, the wait is above 0, and at most
  \<^verbatim>\<open>min_interval\<close> when \<^verbatim>\<open>_last_call_ts\<close> is not ahead of the clock.
\<close>

lemma wiki_sleep_returns:
  "i < 3 \<Longrightarrow> time_sleep ((3 / 2) ^ (i + 1)) w = (Inr (), sleep ((3 / 2) ^ (i + 1)) w)"
proof -
  assume "i < 3"
  then have "i = 0 \<or> i = 1 \<or> i = 2" by auto
  then show ?thesis by (auto simp: time_sleep_def SLEEP_MAX_def power2_eq_square power3_eq_cube)
qed

lemma throttle_wait_returns:
  assumes "0 < FREE_TIER_RPM cfg" and "last_call_ts w \<le> clock w"
    and "clock w - last_call_ts w < 60 / of_int (FREE_TIER_RPM cfg)"
  shows "time_sleep (60 / of_int (FREE_TIER_RPM cfg) - (clock w - last_call_ts w)) w' =
         (Inr (), sleep (60 / of_int (FREE_TIER_RPM cfg) - (clock w - last_call_ts w)) w')"
proof -
  let ?m = "60 / (of_int (FREE_TIER_RPM cfg) :: rat)"
  have "(1 :: rat) \<le> of_int (FREE_TIER_RPM cfg)" using assms(1) by simp
  then have "?m \<le> 60" by (simp add: divide_le_eq)
  then have "?m - (clock w - last_call_ts w) \<le> SLEEP_MAX"
    using assms(2) by (simp add: SLEEP_MAX_def)
  moreover have "0 < ?m - (clock w - last_call_ts w)" using assms(3) by simp
  ultimately show ?thesis by (simp add: time_sleep_def)
qed

lemma http_get_fields [simp]:
  "fst (http_get lang ps w) = http w (http_pos w)"
  "clock (snd (http_get lang ps w)) = clock w" "sleeps (snd (http_get lang ps w)) = sleeps w"
  "http (snd (http_get lang ps w)) = http w" "http_pos (snd (http_get lang ps w)) = Suc (http_pos w)"
  "gets (snd (http_get lang ps w)) = gets w @ [(lang, ps)]"
  "wiki_pages (snd (http_get lang ps w)) = wiki_pages w"
  "wiki_titles (snd (http_get lang ps w)) = wiki_titles w"
  "gen (snd (http_get lang ps w)) = gen w" "gen_pos (snd (http_get lang ps w)) = gen_pos w"
  "gen_calls (snd (http_get lang ps w)) = gen_calls w"
  "last_call_ts (snd (http_get lang ps w)) = last_call_ts w"
  "fs (snd (http_get lang ps w)) = fs w" "fs_pos (snd (http_get lang ps w)) = fs_pos w"
  "files (snd (http_get lang ps w)) = files w"
  "unicode_alnum (snd (http_get lang ps w)) = unicode_alnum w"
  "stdout (snd (http_get lang ps w)) = stdout w"
  "unprintable (snd (http_get lang ps w)) = unprintable w"
  by (simp_all add: http_get_def)

subsection \<open>The Wikipedia request\<close>

lemma wiki_attempts_step:
  "wiki_attempts ps body lang retries backoff (i # rest) last_err w =
     (let w1 = snd (http_get lang ps w); w2 = sleep (backoff ^ (i + 1)) w1 in
      case http w (http_pos w) of
        GetRaises m \<Rightarrow> wiki_attempts ps body lang retries backoff rest (Some (RequestException m)) w2
      | Response status json_ok \<Rightarrow>
          if status = 403 then wiki_attempts ps body lang retries backoff rest last_err w2
          else if 400 \<le> status \<and> status < 600
          then wiki_attempts ps body lang retries backoff rest (Some (HTTPError status)) w2
          else if json_ok then (Inr body, w1)
          else wiki_attempts ps body lang retries backoff rest (Some JSONDecodeError) w2)"
  by (auto simp: http_get_def Let_def split: http_outcome.splits)

declare wiki_attempts.simps(2) [simp del]

lemma wiki_attempts_exhausted:
  "\<forall>j < length ixs. retried (http w (http_pos w + j)) \<Longrightarrow>
   \<exists>last. fst (wiki_attempts ps body lang retries backoff ixs last_err w) = Inl (WikiFailed retries last) \<and>
   http_pos (snd (wiki_attempts ps body lang retries backoff ixs last_err w)) = http_pos w + length ixs \<and>
   sleeps (snd (wiki_attempts ps body lang retries backoff ixs last_err w)) =
     sleeps w @ map (\<lambda>i. backoff ^ (i + 1)) ixs"
proof (induction ixs arbitrary: w last_err)
  case Nil
  then show ?case by simp
next
  case (Cons i ixs)
  let ?w1 = "sleep (backoff ^ (i + 1)) (snd (http_get lang ps w))"
  have h: "http ?w1 = http w" "http_pos ?w1 = Suc (http_pos w)" "sleeps ?w1 = sleeps w @ [backoff ^ (i + 1)]"
    by simp_all
  have "\<And>j. j < length ixs \<Longrightarrow> retried (http w (http_pos w + Suc j))"
    using Cons.prems by auto
  then have "\<forall>j < length ixs. retried (http ?w1 (http_pos ?w1 + j))"
    by (simp add: h)
  note ih = Cons.IH[OF this]
  have r0: "retried (http w (http_pos w))" using Cons.prems by force
  show ?case
  proof (cases "http w (http_pos w)")
    case (GetRaises m)
    then show ?thesis
      using ih[of "Some (RequestException m)"] by (simp add: wiki_attempts_step Let_def h)
  next
    case (Response status json_ok)
    with r0 show ?thesis
      using ih[of last_err] ih[of "Some (HTTPError status)"] ih[of "Some JSONDecodeError"]
      by (auto simp: wiki_attempts_step Let_def h)
  qed
qed

lemma wiki_attempts_answer:
  "k < length ixs \<Longrightarrow> \<forall>j < k. retried (http w (http_pos w + j)) \<Longrightarrow>
   \<not> retried (http w (http_pos w + k)) \<Longrightarrow>
   fst (wiki_attempts ps body lang retries backoff ixs last_err w) = Inr body \<and>
   http_pos (snd (wiki_attempts ps body lang retries backoff ixs last_err w)) = http_pos w + k + 1 \<and>
   sleeps (snd (wiki_attempts ps body lang retries backoff ixs last_err w)) =
     sleeps w @ map (\<lambda>i. backoff ^ (i + 1)) (take k ixs)"
proof (induction ixs arbitrary: w last_err k)
  case Nil
  then show ?case by simp
next
  case (Cons i ixs)
  show ?case
  proof (cases k)
    case 0
    with Cons.prems show ?thesis
      by (cases "http w (http_pos w)") (auto simp: wiki_attempts_step Let_def)
  next
    case (Suc k')
    let ?w1 = "sleep (backoff ^ (i + 1)) (snd (http_get lang ps w))"
    have h: "http ?w1 = http w" "http_pos ?w1 = Suc (http_pos w)" "sleeps ?w1 = sleeps w @ [backoff ^ (i + 1)]"
      by simp_all
    have a: "k' < length ixs" using Cons.prems Suc by simp
    have "\<And>j. j < k' \<Longrightarrow> retried (http w (http_pos w + Suc j))"
      using Cons.prems Suc by auto
    then have b: "\<forall>j < k'. retried (http ?w1 (http_pos ?w1 + j))"
      by (simp add: h)
    have c: "\<not> retried (http ?w1 (http_pos ?w1 + k'))"
      using Cons.prems Suc by (simp add: h)
    note ih = Cons.IH[OF a b c]
    have r0: "retried (http w (http_pos w))" using Cons.prems Suc by force
    show ?thesis
    proof (cases "http w (http_pos w)")
      case (GetRaises m)
      then show ?thesis
        using ih[of "Some (RequestException m)"] Suc by (simp add: wiki_attempts_step Let_def h)
    next
      case (Response status json_ok)
      with r0 show ?thesis
        using ih[of last_err] ih[of "Some (HTTPError status)"] ih[of "Some JSONDecodeError"] Suc
        by (auto simp: wiki_attempts_step Let_def h)
    qed
  qed
qed

text \<open>
  C5, as the code has it. When each of the next \<open>retries\<close> requests fails (it raises,
  or answers 403 or another status from 400 to 599, or its body is not JSON),
  \<^verbatim>\<open>wiki_request\<close> makes exactly \<open>retries\<close> requests, sleeps \<open>backoff ^ (i + 1)\<close> after
  the failure of attempt \<open>i\<close> (counted from 0, the last one included, with no cap) and
  raises its \<^verbatim>\<open>RuntimeError\<close>. When request \<open>k\<close> is the first good one, it returns the body
  after \<open>k + 1\<close> requests and the sleeps of the \<open>k\<close> failures.
\<close>

theorem wiki_request_retries:
  "((\<forall>j < retries. retried (http w (http_pos w + j))) \<longrightarrow>
      (\<exists>last. fst (wiki_request ps body lang retries backoff w) = Inl (WikiFailed retries last)) \<and>
      http_pos (snd (wiki_request ps body lang retries backoff w)) = http_pos w + retries \<and>
      sleeps (snd (wiki_request ps body lang retries backoff w)) =
        sleeps w @ map (\<lambda>i. backoff ^ (i + 1)) [0..<retries]) \<and>
   (k < retries \<and> (\<forall>j < k. retried (http w (http_pos w + j))) \<and> \<not> retried (http w (http_pos w + k)) \<longrightarrow>
      fst (wiki_request ps body lang retries backoff w) = Inr body \<and>
      http_pos (snd (wiki_request ps body lang retries backoff w)) = http_pos w + k + 1 \<and>
      sleeps (snd (wiki_request ps body lang retries backoff w)) =
        sleeps w @ map (\<lambda>i. backoff ^ (i + 1)) [0..<k])"
proof (intro conjI impI)
  assume a: "\<forall>j < retries. retried (http w (http_pos w + j))"
  then have "\<forall>j < length [0..<retries]. retried (http w (http_pos w + j))" by simp
  from wiki_attempts_exhausted[OF this, of ps body lang retries backoff None]
  show "\<exists>last. fst (wiki_request ps body lang retries backoff w) = Inl (WikiFailed retries last)"
    and "http_pos (snd (wiki_request ps body lang retries backoff w)) = http_pos w + retries"
    and "sleeps (snd (wiki_request ps body lang retries backoff w)) =
        sleeps w @ map (\<lambda>i. backoff ^ (i + 1)) [0..<retries]"
    by (auto simp: wiki_request_def)
next
  assume a: "k < retries \<and> (\<forall>j < k. retried (http w (http_pos w + j))) \<and> \<not> retried (http w (http_pos w + k))"
  then have "k < length [0..<retries]" by simp
  from wiki_attempts_answer[OF this, of w ps body lang retries backoff None] a
  have r: "fst (wiki_request ps body lang retries backoff w) = Inr body \<and>
      http_pos (snd (wiki_request ps body lang retries backoff w)) = http_pos w + k + 1 \<and>
      sleeps (snd (wiki_request ps body lang retries backoff w)) =
        sleeps w @ map (\<lambda>i. backoff ^ (i + 1)) (take k [0..<retries])"
    by (simp add: wiki_request_def)
  moreover have "take k [0..<retries] = [0..<k]" using a by (simp add: take_upt)
  ultimately show "fst (wiki_request ps body lang retries backoff w) = Inr body"
    and "http_pos (snd (wiki_request ps body lang retries backoff w)) = http_pos w + k + 1"
    and "sleeps (snd (wiki_request ps body lang retries backoff w)) =
        sleeps w @ map (\<lambda>i. backoff ^ (i + 1)) [0..<k]"
    by simp_all
qed

text \<open>
  Against C5 as stated: on a network where every request times out, the three delays
  are 1.5, 2.25 and 3.375 seconds, and the second is not twice the first.
\<close>

theorem wiki_backoff_not_doubling:
  "sleeps (snd (wiki_request (Query (py ''Brasil'') False) (found_page (py ''Brasil'') (py ''O Brasil'')) (py ''pt'') 3 (3 / 2) dead_network))
     = [3 / 2, 9 / 4, 27 / 8] \<and> (9 / 4 :: rat) \<noteq> 2 * (3 / 2)"
  by code_simp

text \<open>
  C5 on two networks: every request times out; and two answers of 503, then a good one.
\<close>

theorem wiki_request_retries_witness:
  "(\<exists>last. fst (wiki_request (OpenSearch (py ''Brasil'')) [py ''Brasil''] (py ''pt'') 3 (3 / 2) dead_network)
       = Inl (WikiFailed 3 last)) \<and>
   http_pos (snd (wiki_request (OpenSearch (py ''Brasil'')) [py ''Brasil''] (py ''pt'') 3 (3 / 2) dead_network)) = 3 \<and>
   sleeps (snd (wiki_request (OpenSearch (py ''Brasil'')) [py ''Brasil''] (py ''pt'') 3 (3 / 2) dead_network))
     = [3 / 2, 9 / 4, 27 / 8] \<and>
   fst (wiki_request (OpenSearch (py ''Brasil'')) [py ''Brasil''] (py ''pt'') 3 (3 / 2) flaky_network)
     = Inr [py ''Brasil''] \<and>
   http_pos (snd (wiki_request (OpenSearch (py ''Brasil'')) [py ''Brasil''] (py ''pt'') 3 (3 / 2) flaky_network)) = 3 \<and>
   sleeps (snd (wiki_request (OpenSearch (py ''Brasil'')) [py ''Brasil''] (py ''pt'') 3 (3 / 2) flaky_network))
     = [3 / 2, 9 / 4]"
proof -
  have d: "\<forall>j < 3. retried (http dead_network (http_pos dead_network + j))"
    by (simp add: dead_network_def calm_world_def)
  have f: "(2::nat) < 3 \<and> (\<forall>j < 2. retried (http flaky_network (http_pos flaky_network + j))) \<and>
      \<not> retried (http flaky_network (http_pos flaky_network + 2))"
    by (simp add: flaky_network_def calm_world_def)
  have u: "map (\<lambda>i. (3 / 2 :: rat) ^ (i + 1)) [0..<3] = [3 / 2, 9 / 4, 27 / 8]"
    "map (\<lambda>i. (3 / 2 :: rat) ^ (i + 1)) [0..<2] = [3 / 2, 9 / 4]"
    by code_simp+
  have s: "sleeps dead_network = []" "sleeps flaky_network = []"
    "http_pos dead_network = 0" "http_pos flaky_network = 0"
    by (simp_all add: dead_network_def flaky_network_def calm_world_def)
  let ?rd = "wiki_request (OpenSearch (py ''Brasil'')) [py ''Brasil''] (py ''pt'') 3 (3 / 2) dead_network"
  let ?rf = "wiki_request (OpenSearch (py ''Brasil'')) [py ''Brasil''] (py ''pt'') 3 (3 / 2) flaky_network"
  have A: "(\<exists>last. fst ?rd = Inl (WikiFailed 3 last)) \<and>
      http_pos (snd ?rd) = http_pos dead_network + 3 \<and>
      sleeps (snd ?rd) = sleeps dead_network @ map (\<lambda>i. (3 / 2) ^ (i + 1)) [0..<3]"
    using wiki_request_retries[where w = dead_network and retries = 3 and backoff = "3 / 2"
        and ps = "OpenSearch (py ''Brasil'')" and body = "[py ''Brasil'']" and lang = "py ''pt''"] d
    by blast
  have B: "fst ?rf = Inr [py ''Brasil''] \<and>
      http_pos (snd ?rf) = http_pos flaky_network + 2 + 1 \<and>
      sleeps (snd ?rf) = sleeps flaky_network @ map (\<lambda>i. (3 / 2) ^ (i + 1)) [0..<2]"
    using wiki_request_retries[where w = flaky_network and retries = 3 and k = 2 and backoff = "3 / 2"
        and ps = "OpenSearch (py ''Brasil'')" and body = "[py ''Brasil'']" and lang = "py ''pt''"] f
    by blast
  show ?thesis
    using A B unfolding u s by simp
qed

subsection \<open>Resolving an article\<close>

lemma article_body_nonempty:
  "fst (get_wikipedia_article depth title lang io w) = Inr (t, body) \<Longrightarrow> body \<noteq> []"
proof (induction depth arbitrary: title w)
  case 0
  then show ?case by simp
next
  case (Suc depth)
  then show ?case
    by (auto simp: Let_def split: prod.splits sum.splits list.splits option.splits if_splits)
qed

text \<open>
  C9. Whatever the network and Wikipedia do, a result of \<^verbatim>\<open>get_wikipedia_article\<close> has
  a body that is not empty; and when the lookup finds a page that is not marked missing
  and has no extract or an empty one, the call raises the \<^verbatim>\<open>ValueError\<close> of line 121
  with the normalized title.
\<close>

theorem resolved_body_nonempty:
  "(fst (get_wikipedia_article depth title lang io w) = Inr (t, body) \<longrightarrow> body \<noteq> []) \<and>
   (fst (wiki_request (Query title io) (wiki_pages w lang title io) lang 3 (3 / 2) w) = Inr ((key, pg) # others) \<and>
    page_missing pg \<noteq> Some [] \<and> page_pageid pg \<noteq> Some (- 1) \<and>
    (page_extract pg = None \<or> page_extract pg = Some []) \<longrightarrow>
    fst (get_wikipedia_article (Suc depth) title lang io w) =
      Inl (NoContent (case page_title pg of None \<Rightarrow> title | Some n \<Rightarrow> n)))"
proof (intro conjI impI)
  assume "fst (get_wikipedia_article depth title lang io w) = Inr (t, body)"
  then show "body \<noteq> []" by (rule article_body_nonempty)
next
  assume a: "fst (wiki_request (Query title io) (wiki_pages w lang title io) lang 3 (3 / 2) w) = Inr ((key, pg) # others) \<and>
    page_missing pg \<noteq> Some [] \<and> page_pageid pg \<noteq> Some (- 1) \<and>
    (page_extract pg = None \<or> page_extract pg = Some [])"
  then have "(case page_extract pg of None \<Rightarrow> [] | Some x \<Rightarrow> x) = []" by auto
  with a show "fst (get_wikipedia_article (Suc depth) title lang io w) =
      Inl (NoContent (case page_title pg of None \<Rightarrow> title | Some n \<Rightarrow> n))"
    by (auto simp: Let_def split: prod.splits)
qed

text \<open>C9 on a Wikipedia whose page has a body, and on one whose page has none.\<close>

theorem resolved_body_nonempty_witness:
  "fst (get_wikipedia_article 5 (py ''brasil'') (py ''pt'') False brasil_world) = Inr (py ''Brasil'', py ''O Brasil'') \<and>
   py ''O Brasil'' \<noteq> [] \<and>
   fst (get_wikipedia_article 5 (py ''brasil'') (py ''pt'') False blank_world) = Inl (NoContent (py ''Brasil''))"
proof -
  have a: "fst (get_wikipedia_article 5 (py ''brasil'') (py ''pt'') False brasil_world) = Inr (py ''Brasil'', py ''O Brasil'')"
    by code_simp
  have b: "fst (wiki_request (Query (py ''brasil'') False) (wiki_pages blank_world (py ''pt'') (py ''brasil'') False) (py ''pt'') 3 (3 / 2) blank_world)
      = Inr ((py ''42'', \<lparr>page_missing = None, page_pageid = Some 42, page_title = Some (py ''Brasil''), page_extract = Some []\<rparr>) # [])"
    by code_simp
  have c: "py ''O Brasil'' \<noteq> []"
    using resolved_body_nonempty[where depth = 5 and w = brasil_world and t = "py ''Brasil''" and body = "py ''O Brasil''"] a
    by blast
  have d: "fst (get_wikipedia_article (Suc 4) (py ''brasil'') (py ''pt'') False blank_world) = Inl (NoContent (py ''Brasil''))"
    using resolved_body_nonempty[where depth = 4 and w = blank_world and title = "py ''brasil''" and lang = "py ''pt''" and io = False
        and key = "py ''42''" and others = "[]"
        and pg = "\<lparr>page_missing = None, page_pageid = Some 42, page_title = Some (py ''Brasil''), page_extract = Some []\<rparr>"] b
    by simp
  have "Suc 4 = 5" by simp
  with a c d show ?thesis by simp
qed

text \<open>
  C4, as the code has it. When the lookup of a title answers with no page, or with a
  first page marked missing, \<^verbatim>\<open>get_wikipedia_article\<close> searches once for that title. An
  error of the search is raised on; no hit, or an empty one, raises the \<^verbatim>\<open>ValueError\<close> of
  line 108 or 115; a hit is resolved by the same function, one level deeper, so a hit
  that is missing is searched for in its turn.
\<close>

theorem search_fallback_hop:
  "fst (wiki_request (Query title io) (wiki_pages w lang title io) lang 3 (3 / 2) w) = Inr pages \<and>
   (pages = [] \<or> page_missing (snd (hd pages)) = Some [] \<or> page_pageid (snd (hd pages)) = Some (- 1)) \<longrightarrow>
   (let w1 = snd (wiki_request (Query title io) (wiki_pages w lang title io) lang 3 (3 / 2) w);
        found = search_wikipedia_title title lang w1;
        not_found = (if pages = [] then NotFound title else PageNotFound title)
    in (\<forall>e. fst found = Inl e \<longrightarrow>
          get_wikipedia_article (Suc depth) title lang io w = (Inl e, snd found)) \<and>
       (fst found = Inr None \<or> fst found = Inr (Some []) \<longrightarrow>
          get_wikipedia_article (Suc depth) title lang io w = (Inl not_found, snd found)) \<and>
       (\<forall>alt. fst found = Inr (Some alt) \<and> alt \<noteq> [] \<longrightarrow>
          get_wikipedia_article (Suc depth) title lang io w =
            get_wikipedia_article depth alt lang io (snd found)))"
  by (cases pages) (auto simp: Let_def split: prod.splits sum.splits option.splits)

text \<open>
  Against C4 as stated: where the hit of the first search is a missing page too, a
  second search is made, for the hit, and its own hit is returned.
\<close>

theorem second_search_after_missing_hit:
  "fst (get_wikipedia_article 5 (py ''Bresil'') (py ''pt'') False two_hop_world) = Inr (py ''Brasil'', py ''O Brasil'') \<and>
   gets (snd (get_wikipedia_article 5 (py ''Bresil'') (py ''pt'') False two_hop_world)) =
     [(py ''pt'', Query (py ''Bresil'') False), (py ''pt'', OpenSearch (py ''Bresil'')),
      (py ''pt'', Query (py ''Brazil'') False), (py ''pt'', OpenSearch (py ''Brazil'')),
      (py ''pt'', Query (py ''Brasil'') False)]"
  by code_simp

text \<open>
  C4 on a Wikipedia where the search has a hit, and on one with no page and no hit.
\<close>

theorem search_fallback_hop_witness:
  "get_wikipedia_article (Suc 4) (py ''Bresil'') (py ''pt'') False two_hop_world =
     get_wikipedia_article 4 (py ''Brazil'') (py ''pt'') False
       (snd (search_wikipedia_title (py ''Bresil'') (py ''pt'')
          (snd (wiki_request (Query (py ''Bresil'') False) (wiki_pages two_hop_world (py ''pt'') (py ''Bresil'') False)
                  (py ''pt'') 3 (3 / 2) two_hop_world)))) \<and>
   fst (get_wikipedia_article (Suc 4) (py ''Atlantida'') (py ''pt'') False calm_world) = Inl (NotFound (py ''Atlantida''))"
proof -
  let ?q = "wiki_request (Query (py ''Bresil'') False) (wiki_pages two_hop_world (py ''pt'') (py ''Bresil'') False)
                  (py ''pt'') 3 (3 / 2) two_hop_world"
  have a: "fst ?q = Inr (missing_page (py ''Bresil''))" by code_simp
  have b: "page_missing (snd (hd (missing_page (py ''Bresil'')))) = Some []" by code_simp
  have c: "fst (search_wikipedia_title (py ''Bresil'') (py ''pt'') (snd ?q)) = Inr (Some (py ''Brazil''))" by code_simp
  have d: "py ''Brazil'' \<noteq> []" by (simp add: py_def)
  have first: "get_wikipedia_article (Suc 4) (py ''Bresil'') (py ''pt'') False two_hop_world =
     get_wikipedia_article 4 (py ''Brazil'') (py ''pt'') False (snd (search_wikipedia_title (py ''Bresil'') (py ''pt'') (snd ?q)))"
    using search_fallback_hop[where w = two_hop_world and title = "py ''Bresil''" and lang = "py ''pt''" and io = False
        and pages = "missing_page (py ''Bresil'')" and depth = 4] a b c d
    by (simp add: Let_def)
  let ?q2 = "wiki_request (Query (py ''Atlantida'') False) (wiki_pages calm_world (py ''pt'') (py ''Atlantida'') False)
                  (py ''pt'') 3 (3 / 2) calm_world"
  have e: "fst ?q2 = Inr []" by code_simp
  have f: "fst (search_wikipedia_title (py ''Atlantida'') (py ''pt'') (snd ?q2)) = Inr None" by code_simp
  have second: "fst (get_wikipedia_article (Suc 4) (py ''Atlantida'') (py ''pt'') False calm_world) = Inl (NotFound (py ''Atlantida''))"
    using search_fallback_hop[where w = calm_world and title = "py ''Atlantida''" and lang = "py ''pt''" and io = False
        and pages = "[]" and depth = 4] e f
    by (simp add: Let_def)
  from first second show ?thesis by blast
qed

subsection \<open>Saving a pair\<close>

lemma ensure_dir_fields [simp]:
  "clock (snd (ensure_dir p w)) = clock w" "sleeps (snd (ensure_dir p w)) = sleeps w"
  "http (snd (ensure_dir p w)) = http w" "http_pos (snd (ensure_dir p w)) = http_pos w"
  "gets (snd (ensure_dir p w)) = gets w"
  "wiki_pages (snd (ensure_dir p w)) = wiki_pages w" "wiki_titles (snd (ensure_dir p w)) = wiki_titles w"
  "gen (snd (ensure_dir p w)) = gen w" "gen_pos (snd (ensure_dir p w)) = gen_pos w"
  "gen_calls (snd (ensure_dir p w)) = gen_calls w"
  "last_call_ts (snd (ensure_dir p w)) = last_call_ts w"
  "fs (snd (ensure_dir p w)) = fs w" "fs_pos (snd (ensure_dir p w)) = Suc (fs_pos w)"
  "files (snd (ensure_dir p w)) = files w" "unicode_alnum (snd (ensure_dir p w)) = unicode_alnum w"
  "stdout (snd (ensure_dir p w)) = stdout w" "unprintable (snd (ensure_dir p w)) = unprintable w"
  by (simp_all add: ensure_dir_def split: fs_outcome.splits)

lemma write_file_fields [simp]:
  "clock (snd (write_file p d w)) = clock w" "sleeps (snd (write_file p d w)) = sleeps w"
  "http (snd (write_file p d w)) = http w" "http_pos (snd (write_file p d w)) = http_pos w"
  "gets (snd (write_file p d w)) = gets w"
  "wiki_pages (snd (write_file p d w)) = wiki_pages w" "wiki_titles (snd (write_file p d w)) = wiki_titles w"
  "gen (snd (write_file p d w)) = gen w" "gen_pos (snd (write_file p d w)) = gen_pos w"
  "gen_calls (snd (write_file p d w)) = gen_calls w"
  "last_call_ts (snd (write_file p d w)) = last_call_ts w"
  "fs (snd (write_file p d w)) = fs w" "fs_pos (snd (write_file p d w)) = Suc (fs_pos w)"
  "unicode_alnum (snd (write_file p d w)) = unicode_alnum w"
  "stdout (snd (write_file p d w)) = stdout w" "unprintable (snd (write_file p d w)) = unprintable w"
  by (simp_all add: write_file_def split: fs_outcome.splits)

lemma write_file_files:
  "files (snd (write_file p d w)) =
     (case fs w (fs_pos w) of
        FsOk \<Rightarrow> (files w)(p \<mapsto> if has_surrogate d then [] else d)
      | FsFails m \<Rightarrow> files w
      | FsPartial n m \<Rightarrow> (files w)(p \<mapsto> if has_surrogate d then [] else take n d))"
  by (simp add: write_file_def split: fs_outcome.splits)

lemma write_file_ok:
  "fst (write_file p d w) = Inr u \<longleftrightarrow> fs w (fs_pos w) = FsOk \<and> \<not> has_surrogate d"
  by (simp add: write_file_def split: fs_outcome.splits)

lemma write_file_error:
  "fst (write_file p d w) = Inl e \<Longrightarrow> (\<exists>m. e = OSError m) \<or> e = UnicodeEncodeError"
  by (auto simp: write_file_def split: fs_outcome.splits if_splits)

lemma ensure_dir_ok:
  "fst (ensure_dir p w) = Inr u \<longleftrightarrow> fs w (fs_pos w) = FsOk"
  by (simp add: ensure_dir_def split: fs_outcome.splits)

lemma ensure_dir_error:
  "fst (ensure_dir p w) = Inl e \<Longrightarrow> \<exists>m. e = OSError m"
  by (auto simp: ensure_dir_def split: fs_outcome.splits)

lemma path_join_Cons:
  "path_join a (c # x) =
     (if c = 47 then c # x else if a = [] \<or> last a = 47 then a @ c # x else a @ [47] @ c # x)"
  by (simp add: path_join_def)

lemma pair_paths_differ: "original_path d b \<noteq> ia_path d b"
proof -
  have ne: "py ''__original.txt'' \<noteq> py ''__ia.txt''" by (simp add: py_def)
  obtain h t1 where n1: "b @ py ''__original.txt'' = h # t1"
    by (cases b) (auto simp: py_def)
  then obtain t2 where n2: "b @ py ''__ia.txt'' = h # t2"
    by (cases b) (auto simp: py_def)
  have "t1 \<noteq> t2"
  proof
    assume "t1 = t2"
    with n1 n2 have "b @ py ''__original.txt'' = b @ py ''__ia.txt''" by simp
    with ne show False by simp
  qed
  then show ?thesis
    unfolding original_path_def ia_path_def n1 n2 path_join_Cons by auto
qed

lemma save_texts_unfold:
  "save_texts base_dir title original generated w =
     (let w1 = snd (ensure_dir base_dir w);
          base = slugify (unicode_alnum w) title;
          w2 = snd (write_file (original_path base_dir base) original w1);
          w3 = snd (write_file (ia_path base_dir base) generated w2)
      in case fst (ensure_dir base_dir w) of
           Inl e \<Rightarrow> (Inl e, w1)
         | Inr u \<Rightarrow>
             (case fst (write_file (original_path base_dir base) original w1) of
                Inl e \<Rightarrow> (Inl e, w2)
              | Inr u2 \<Rightarrow>
                  (case fst (write_file (ia_path base_dir base) generated w2) of
                     Inl e \<Rightarrow> (Inl e, w3)
                   | Inr u3 \<Rightarrow> print_line (Saved base) w3)))"
proof -
  have u: "unicode_alnum (snd (ensure_dir base_dir w)) = unicode_alnum w" by simp
  show ?thesis
    unfolding save_texts_def Let_def
    by (cases "ensure_dir base_dir w") (auto simp: u[symmetric] split: prod.splits sum.splits)
qed

lemma save_texts_outcome:
  "(let base = slugify (unicode_alnum w) title;
        r = save_texts base_dir title original generated w;
        w' = snd r
    in (fst r = Inr () \<longleftrightarrow>
          fs w (fs_pos w) = FsOk \<and> fs w (fs_pos w + 1) = FsOk \<and> fs w (fs_pos w + 2) = FsOk \<and>
          \<not> has_surrogate original \<and> \<not> has_surrogate generated \<and> \<not> unprintable w (Saved base)) \<and>
       (fst r = Inr () \<longrightarrow>
          files w' (original_path base_dir base) = Some original \<and>
          files w' (ia_path base_dir base) = Some generated) \<and>
       (fs w (fs_pos w) = FsOk \<and> fs w (fs_pos w + 1) = FsOk \<and> \<not> has_surrogate original \<longrightarrow>
          files w' (original_path base_dir base) = Some original) \<and>
       (files w' (ia_path base_dir base) \<noteq> files w (ia_path base_dir base) \<longrightarrow>
          files w' (original_path base_dir base) = Some original) \<and>
       (\<forall>e. fst r = Inl e \<longrightarrow> (\<exists>m. e = OSError m) \<or> e = UnicodeEncodeError) \<and>
       dom (files w) \<subseteq> dom (files w'))"
proof -
  define base where "base = slugify (unicode_alnum w) title"
  define w1 where "w1 = snd (ensure_dir base_dir w)"
  define w2 where "w2 = snd (write_file (original_path base_dir base) original w1)"
  define w3 where "w3 = snd (write_file (ia_path base_dir base) generated w2)"
  note ne = pair_paths_differ[of base_dir base]
  have f1: "files w1 = files w" by (simp add: w1_def)
  have p1: "fs w1 (fs_pos w1) = fs w (fs_pos w + 1)" by (simp add: w1_def)
  have p2: "fs w2 (fs_pos w2) = fs w (fs_pos w + 2)" by (simp add: w2_def w1_def)
  have u3: "unprintable w3 = unprintable w" by (simp add: w3_def w2_def w1_def)
  show ?thesis
  proof (cases "fst (ensure_dir base_dir w)")
    case (Inl e)
    then have r: "save_texts base_dir title original generated w = (Inl e, w1)"
      by (simp add: save_texts_unfold w1_def Let_def)
    have "fs w (fs_pos w) \<noteq> FsOk" using Inl ensure_dir_ok[of base_dir w] by auto
    then show ?thesis
      using ensure_dir_error[OF Inl] by (simp add: r Let_def f1)
  next
    case (Inr u)
    note d = this
    then have d0: "fs w (fs_pos w) = FsOk" using ensure_dir_ok by blast
    show ?thesis
    proof (cases "fst (write_file (original_path base_dir base) original w1)")
      case (Inl e)
      then have r: "save_texts base_dir title original generated w = (Inl e, w2)"
        using d by (simp add: save_texts_unfold w1_def w2_def base_def Let_def)
      have no: "\<not> (fs w (fs_pos w + 1) = FsOk \<and> \<not> has_surrogate original)"
        using Inl write_file_ok[of "original_path base_dir base" original w1] p1 by auto
      have "files w2 (ia_path base_dir base) = files w (ia_path base_dir base)"
        and "dom (files w) \<subseteq> dom (files w2)"
        using ne by (auto simp: w2_def write_file_files f1 split: fs_outcome.splits)
      then show ?thesis
        using write_file_error[OF Inl] no by (auto simp: r Let_def base_def[symmetric])
    next
      case (Inr u2)
      note o = this
      then have ok: "fs w1 (fs_pos w1) = FsOk" "\<not> has_surrogate original"
        using write_file_ok by blast+
      then have f2: "files w2 = (files w)(original_path base_dir base \<mapsto> original)"
        by (simp add: w2_def write_file_files f1)
      have f3o: "files w3 (original_path base_dir base) = Some original"
        and dm: "dom (files w) \<subseteq> dom (files w3)"
        using ne by (auto simp: w3_def write_file_files f2 split: fs_outcome.splits)
      show ?thesis
      proof (cases "fst (write_file (ia_path base_dir base) generated w2)")
        case (Inl e)
        then have r: "save_texts base_dir title original generated w = (Inl e, w3)"
          using d o by (simp add: save_texts_unfold w1_def w2_def w3_def base_def Let_def)
        have no: "\<not> (fs w (fs_pos w + 2) = FsOk \<and> \<not> has_surrogate generated)"
          using Inl write_file_ok[of "ia_path base_dir base" generated w2] p2 by auto
        show ?thesis
          using write_file_error[OF Inl] f3o dm no by (auto simp: r Let_def base_def[symmetric])
      next
        case (Inr u3)
        then have r: "save_texts base_dir title original generated w = print_line (Saved base) w3"
          using d o by (simp add: save_texts_unfold w1_def w2_def w3_def base_def Let_def)
        have ok2: "fs w2 (fs_pos w2) = FsOk" "\<not> has_surrogate generated"
          using Inr write_file_ok by blast+
        then have "files w3 (ia_path base_dir base) = Some generated"
          by (simp add: w3_def write_file_files)
        then show ?thesis
          using f3o dm d0 ok ok2 p1 p2
          by (auto simp: r Let_def base_def[symmetric] print_line_unfold u3)
      qed
    qed
  qed
qed

text \<open>
  C7, as the code has it. With \<open>base\<close> the slug of the title: \<^verbatim>\<open>save_texts\<close> returns without
  an exception exactly when the directory and both files could be written, both texts
  could be encoded and the closing line could be printed, and then the original file
  holds the original text and the generated file the generated text; once the original
  file was written it holds the original text at the end of the call, whatever
  happens to the generated file (nothing is rolled back); the generated file is
  created or changed only after the original file was written completely; every
  exception of \<^verbatim>\<open>save_texts\<close> is the \<^verbatim>\<open>OSError\<close> of a failed operation or a
  \<^verbatim>\<open>UnicodeEncodeError\<close>; and no file that existed is removed.
\<close>

theorem save_texts_pair:
  "(let base = slugify (unicode_alnum w) title;
        r = save_texts base_dir title original generated w;
        w' = snd r
    in (fst r = Inr () \<longleftrightarrow>
          fs w (fs_pos w) = FsOk \<and> fs w (fs_pos w + 1) = FsOk \<and> fs w (fs_pos w + 2) = FsOk \<and>
          \<not> has_surrogate original \<and> \<not> has_surrogate generated \<and> \<not> unprintable w (Saved base)) \<and>
       (fst r = Inr () \<longrightarrow>
          files w' (original_path base_dir base) = Some original \<and>
          files w' (ia_path base_dir base) = Some generated) \<and>
       (fs w (fs_pos w) = FsOk \<and> fs w (fs_pos w + 1) = FsOk \<and> \<not> has_surrogate original \<longrightarrow>
          files w' (original_path base_dir base) = Some original) \<and>
       (files w' (ia_path base_dir base) \<noteq> files w (ia_path base_dir base) \<longrightarrow>
          files w' (original_path base_dir base) = Some original) \<and>
       (\<forall>e. fst r = Inl e \<longrightarrow> (\<exists>m. e = OSError m) \<or> e = UnicodeEncodeError) \<and>
       dom (files w) \<subseteq> dom (files w'))"
  by (rule save_texts_outcome)

text \<open>
  C7 on a disk where every operation succeeds, and on one where the write of the
  generated file fails: there the call raises and the original file stays, whole.
\<close>

theorem save_texts_pair_witness:
  "fst (save_texts SAVE_DIR (py ''Brasil'') (py ''O Brasil'') (py ''ok'') calm_world) = Inr () \<and>
   files (snd (save_texts SAVE_DIR (py ''Brasil'') (py ''O Brasil'') (py ''ok'') calm_world))
     (original_path SAVE_DIR (py ''Brasil'')) = Some (py ''O Brasil'') \<and>
   files (snd (save_texts SAVE_DIR (py ''Brasil'') (py ''O Brasil'') (py ''ok'') calm_world))
     (ia_path SAVE_DIR (py ''Brasil'')) = Some (py ''ok'') \<and>
   fs full_disk (fs_pos full_disk) = FsOk \<and> fs full_disk (fs_pos full_disk + 1) = FsOk \<and>
   fs full_disk (fs_pos full_disk + 2) \<noteq> FsOk \<and> \<not> has_surrogate (py ''O Brasil'') \<and>
   fst (save_texts SAVE_DIR (py ''Brasil'') (py ''O Brasil'') (py ''ok'') full_disk) \<noteq> Inr () \<and>
   files (snd (save_texts SAVE_DIR (py ''Brasil'') (py ''O Brasil'') (py ''ok'') full_disk))
     (original_path SAVE_DIR (py ''Brasil'')) = Some (py ''O Brasil'')"
proof -
  let ?r = "save_texts SAVE_DIR (py ''Brasil'') (py ''O Brasil'') (py ''ok'') calm_world"
  let ?q = "save_texts SAVE_DIR (py ''Brasil'') (py ''O Brasil'') (py ''ok'') full_disk"
  have slug: "slugify (unicode_alnum calm_world) (py ''Brasil'') = py ''Brasil''"
    "slugify (unicode_alnum full_disk) (py ''Brasil'') = py ''Brasil''"
    by code_simp+
  have ok: "fst ?r = Inr ()" by code_simp
  have good: "files (snd ?r) (original_path SAVE_DIR (py ''Brasil'')) = Some (py ''O Brasil'') \<and>
      files (snd ?r) (ia_path SAVE_DIR (py ''Brasil'')) = Some (py ''ok'')"
    using save_texts_pair[where w = calm_world and title = "py ''Brasil''" and base_dir = SAVE_DIR
        and original = "py ''O Brasil''" and generated = "py ''ok''"] ok
    by (simp add: Let_def slug)
  have disk: "fs full_disk (fs_pos full_disk) = FsOk" "fs full_disk (fs_pos full_disk + 1) = FsOk"
    "fs full_disk (fs_pos full_disk + 2) \<noteq> FsOk" "\<not> has_surrogate (py ''O Brasil'')"
    by code_simp+
  have bad: "fst ?q \<noteq> Inr () \<and>
      files (snd ?q) (original_path SAVE_DIR (py ''Brasil'')) = Some (py ''O Brasil'')"
    using save_texts_pair[where w = full_disk and title = "py ''Brasil''" and base_dir = SAVE_DIR
        and original = "py ''O Brasil''" and generated = "py ''ok''"] disk
    by (simp add: Let_def slug)
  from ok good disk bad show ?thesis by blast
qed

text \<open>
  Against C7 as stated: on a disk where the write of the generated file fails, the run
  of one topic ends with the original file on disk and no generated file.
\<close>

theorem original_without_generated:
  "stdout (snd (main_loop module_config [py ''brasil''] (py ''gemini-1.5-flash'') full_disk)) =
     [Collecting (py ''brasil''), Failed (py ''brasil'') (OSError (py ''No space left on device''))] \<and>
   files (snd (main_loop module_config [py ''brasil''] (py ''gemini-1.5-flash'') full_disk))
     (original_path SAVE_DIR (py ''Brasil'')) = Some (py ''O Brasil'') \<and>
   files (snd (main_loop module_config [py ''brasil''] (py ''gemini-1.5-flash'') full_disk))
     (ia_path SAVE_DIR (py ''Brasil'')) = None"
  by code_simp

subsection \<open>Empty answers\<close>

text \<open>
  C6 fails on the code: the emptiness test of line 166 comes before \<^verbatim>\<open>strip()\<close>. When the
  model answers with a single space, the first attempt succeeds, the rewrite returns
  the empty string, and the run saves an empty generated file.
\<close>

theorem blank_answer_saved_as_empty:
  "fst (generate_text_with_gemini module_config (py ''O Brasil'') (py ''gemini-1.5-flash'') blank_model) = Inr [] \<and>
   stdout (snd (main_loop module_config [py ''brasil''] (py ''gemini-1.5-flash'') blank_model)) =
     [Collecting (py ''brasil''), Saved (py ''Brasil'')] \<and>
   files (snd (main_loop module_config [py ''brasil''] (py ''gemini-1.5-flash'') blank_model))
     (ia_path SAVE_DIR (py ''Brasil'')) = Some []"
  by code_simp

subsection \<open>The generation loop\<close>

lemma client_throttle_sleep_fields [simp]:
  "http (client_throttle_sleep cfg w) = http w" "http_pos (client_throttle_sleep cfg w) = http_pos w"
  "gets (client_throttle_sleep cfg w) = gets w"
  "wiki_pages (client_throttle_sleep cfg w) = wiki_pages w"
  "wiki_titles (client_throttle_sleep cfg w) = wiki_titles w"
  "gen (client_throttle_sleep cfg w) = gen w" "gen_pos (client_throttle_sleep cfg w) = gen_pos w"
  "gen_calls (client_throttle_sleep cfg w) = gen_calls w"
  "fs (client_throttle_sleep cfg w) = fs w" "fs_pos (client_throttle_sleep cfg w) = fs_pos w"
  "files (client_throttle_sleep cfg w) = files w"
  "unicode_alnum (client_throttle_sleep cfg w) = unicode_alnum w"
  "unprintable (client_throttle_sleep cfg w) = unprintable w"
  by (simp_all add: client_throttle_sleep_def Let_def)

lemma generate_content_fields [simp]:
  "fst (generate_content model prompt w) = fst (gen w (gen_pos w))"
  "sleeps (snd (generate_content model prompt w)) = sleeps w"
  "http (snd (generate_content model prompt w)) = http w"
  "http_pos (snd (generate_content model prompt w)) = http_pos w"
  "gets (snd (generate_content model prompt w)) = gets w"
  "wiki_pages (snd (generate_content model prompt w)) = wiki_pages w"
  "wiki_titles (snd (generate_content model prompt w)) = wiki_titles w"
  "gen (snd (generate_content model prompt w)) = gen w"
  "gen_pos (snd (generate_content model prompt w)) = Suc (gen_pos w)"
  "gen_calls (snd (generate_content model prompt w)) = gen_calls w @ [(clock w, model, prompt)]"
  "last_call_ts (snd (generate_content model prompt w)) = last_call_ts w"
  "fs (snd (generate_content model prompt w)) = fs w"
  "fs_pos (snd (generate_content model prompt w)) = fs_pos w"
  "files (snd (generate_content model prompt w)) = files w"
  "unicode_alnum (snd (generate_content model prompt w)) = unicode_alnum w"
  "stdout (snd (generate_content model prompt w)) = stdout w"
  "unprintable (snd (generate_content model prompt w)) = unprintable w"
  by (simp_all add: generate_content_def split: prod.splits)

lemma attempt_result_failing:
  "failing reply \<longleftrightarrow> (\<exists>e. attempt_result reply = Inl e)"
  by (cases reply rule: failing.cases) (simp_all add: attempt_result_def)

lemma retry_seconds_not_neg: "\<not> retry_seconds msg attempt < 0"
  using retry_seconds_nonneg[of msg attempt] by simp

lemma gemini_attempts_step:
  "gemini_attempts cfg model prompt max_retries (attempt # rest) w =
     (let w2 = snd (generate_content model prompt (client_throttle_sleep cfg w))
      in case attempt_result (fst (gen w (gen_pos w))) of
           Inr text \<Rightarrow> (Inr text, w2)
         | Inl e \<Rightarrow>
             (let d = retry_seconds (gen_exc_str e) attempt;
                  ev = RetryWait e d attempt max_retries
              in if unprintable w ev then (Inl UnicodeEncodeError, w2)
                 else if SLEEP_MAX < d then (Inl OverflowError, print_event ev w2)
                 else gemini_attempts cfg model prompt max_retries rest (sleep d (print_event ev w2))))"
proof -
  obtain r w2 where g: "generate_content model prompt (client_throttle_sleep cfg w) = (r, w2)"
    by (cases "generate_content model prompt (client_throttle_sleep cfg w)")
  have "fst (generate_content model prompt (client_throttle_sleep cfg w)) = fst (gen w (gen_pos w))"
    by simp
  with g have r: "fst (gen w (gen_pos w)) = r" by simp
  have "unprintable (snd (generate_content model prompt (client_throttle_sleep cfg w))) = unprintable w"
    by simp
  with g have u: "unprintable w2 = unprintable w" by simp
  show ?thesis
    by (simp add: g r u Let_def print_line_def time_sleep_def retry_seconds_not_neg split: sum.splits)
qed

declare gemini_attempts.simps(2) [simp del]

lemma retry_returns_cong:
  "unprintable w' = unprintable w \<Longrightarrow> retry_returns w' mr a reply = retry_returns w mr a reply"
  by (simp add: retry_returns_def split: sum.splits)

lemma gemini_attempts_retry:
  assumes "attempt_result (fst (gen w (gen_pos w))) = Inl e"
    and "retry_returns w mr a (fst (gen w (gen_pos w)))"
  shows "gemini_attempts cfg model prompt mr (a # rest) w =
         gemini_attempts cfg model prompt mr rest
           (sleep (retry_seconds (gen_exc_str e) a)
              (print_event (RetryWait e (retry_seconds (gen_exc_str e) a) a mr)
                 (snd (generate_content model prompt (client_throttle_sleep cfg w)))))"
  using assms by (simp add: gemini_attempts_step retry_returns_def Let_def not_less[symmetric])

lemma gemini_attempts_exhausted:
  "\<forall>j < length atts. failing (fst (gen w (gen_pos w + j))) \<and>
      retry_returns w mr (atts ! j) (fst (gen w (gen_pos w + j))) \<Longrightarrow>
   fst (gemini_attempts cfg model prompt mr atts w) = Inl (GenFailed mr) \<and>
   gen (snd (gemini_attempts cfg model prompt mr atts w)) = gen w \<and>
   unprintable (snd (gemini_attempts cfg model prompt mr atts w)) = unprintable w \<and>
   gen_pos (snd (gemini_attempts cfg model prompt mr atts w)) = gen_pos w + length atts \<and>
   map (\<lambda>c. snd (snd c)) (gen_calls (snd (gemini_attempts cfg model prompt mr atts w))) =
     map (\<lambda>c. snd (snd c)) (gen_calls w) @ replicate (length atts) prompt"
proof (induction atts arbitrary: w)
  case Nil
  then show ?case by simp
next
  case (Cons a atts)
  from Cons.prems have f0: "failing (fst (gen w (gen_pos w)))"
    and r0: "retry_returns w mr a (fst (gen w (gen_pos w)))" by force+
  from f0 obtain e where e: "attempt_result (fst (gen w (gen_pos w))) = Inl e"
    using attempt_result_failing by blast
  let ?w2 = "snd (generate_content model prompt (client_throttle_sleep cfg w))"
  let ?w3 = "sleep (retry_seconds (gen_exc_str e) a)
                  (print_event (RetryWait e (retry_seconds (gen_exc_str e) a) a mr) ?w2)"
  have h: "gen ?w3 = gen w" "gen_pos ?w3 = Suc (gen_pos w)" "unprintable ?w3 = unprintable w"
    "gen_calls ?w3 = gen_calls w @ [(clock (client_throttle_sleep cfg w), model, prompt)]"
    by simp_all
  have "\<And>j. j < length atts \<Longrightarrow> failing (fst (gen w (gen_pos w + Suc j))) \<and>
      retry_returns w mr (atts ! j) (fst (gen w (gen_pos w + Suc j)))"
    using Cons.prems by fastforce
  then have "\<forall>j < length atts. failing (fst (gen ?w3 (gen_pos ?w3 + j))) \<and>
      retry_returns ?w3 mr (atts ! j) (fst (gen ?w3 (gen_pos ?w3 + j)))"
    by (simp add: h retry_returns_cong[OF h(3)])
  from Cons.IH[OF this] show ?case
    by (simp add: gemini_attempts_retry[OF e r0] h replicate_app_Cons_same)
qed

lemma gemini_attempts_answer:
  "k < length atts \<Longrightarrow>
   \<forall>j < k. failing (fst (gen w (gen_pos w + j))) \<and>
      retry_returns w mr (atts ! j) (fst (gen w (gen_pos w + j))) \<Longrightarrow>
   \<not> failing (fst (gen w (gen_pos w + k))) \<Longrightarrow>
   fst (gemini_attempts cfg model prompt mr atts w) =
     Inr (case attempt_result (fst (gen w (gen_pos w + k))) of Inr t \<Rightarrow> t | Inl e \<Rightarrow> []) \<and>
   gen (snd (gemini_attempts cfg model prompt mr atts w)) = gen w \<and>
   gen_pos (snd (gemini_attempts cfg model prompt mr atts w)) = gen_pos w + Suc k \<and>
   map (\<lambda>c. snd (snd c)) (gen_calls (snd (gemini_attempts cfg model prompt mr atts w))) =
     map (\<lambda>c. snd (snd c)) (gen_calls w) @ replicate (Suc k) prompt"
proof (induction atts arbitrary: w k)
  case Nil
  then show ?case by simp
next
  case (Cons a atts)
  show ?case
  proof (cases k)
    case 0
    with Cons.prems obtain t where "attempt_result (fst (gen w (gen_pos w))) = Inr t"
      using attempt_result_failing by (metis add.right_neutral sum.exhaust_sel sum.collapse(1))
    with 0 show ?thesis
      by (simp add: gemini_attempts_step)
  next
    case (Suc k')
    from Cons.prems Suc have f0: "failing (fst (gen w (gen_pos w)))"
      and r0: "retry_returns w mr a (fst (gen w (gen_pos w)))" by force+
    from f0 obtain e where e: "attempt_result (fst (gen w (gen_pos w))) = Inl e"
      using attempt_result_failing by blast
    let ?w2 = "snd (generate_content model prompt (client_throttle_sleep cfg w))"
    let ?w3 = "sleep (retry_seconds (gen_exc_str e) a)
                  (print_event (RetryWait e (retry_seconds (gen_exc_str e) a) a mr) ?w2)"
    have h: "gen ?w3 = gen w" "gen_pos ?w3 = Suc (gen_pos w)" "unprintable ?w3 = unprintable w"
      "gen_calls ?w3 = gen_calls w @ [(clock (client_throttle_sleep cfg w), model, prompt)]"
      by simp_all
    have a: "k' < length atts" using Cons.prems Suc by simp
    have "\<And>j. j < k' \<Longrightarrow> failing (fst (gen w (gen_pos w + Suc j))) \<and>
        retry_returns w mr (atts ! j) (fst (gen w (gen_pos w + Suc j)))"
      using Cons.prems(2) Suc by fastforce
    then have b: "\<forall>j < k'. failing (fst (gen ?w3 (gen_pos ?w3 + j))) \<and>
        retry_returns ?w3 mr (atts ! j) (fst (gen ?w3 (gen_pos ?w3 + j)))"
      by (simp add: h retry_returns_cong[OF h(3)])
    have c: "\<not> failing (fst (gen ?w3 (gen_pos ?w3 + k')))"
      using Cons.prems Suc by (simp add: h)
    from Cons.IH[OF a b c] show ?thesis
      by (simp add: gemini_attempts_retry[OF e r0] h Suc replicate_app_Cons_same)
  qed
qed

lemma call_exhausted:
  assumes "\<forall>j < mr. failing (fst (gen w (gen_pos w + j))) \<and>
      retry_returns w mr (Suc j) (fst (gen w (gen_pos w + j)))"
  shows "fst (call_gemini_with_retry cfg model prompt mr w) = Inl (GenFailed mr)"
    and "gen (snd (call_gemini_with_retry cfg model prompt mr w)) = gen w"
    and "unprintable (snd (call_gemini_with_retry cfg model prompt mr w)) = unprintable w"
    and "gen_pos (snd (call_gemini_with_retry cfg model prompt mr w)) = gen_pos w + mr"
    and "map (\<lambda>c. snd (snd c)) (gen_calls (snd (call_gemini_with_retry cfg model prompt mr w))) =
           map (\<lambda>c. snd (snd c)) (gen_calls w) @ replicate mr prompt"
proof -
  have "\<forall>j < length [1..<mr + 1]. failing (fst (gen w (gen_pos w + j))) \<and>
      retry_returns w mr ([1..<mr + 1] ! j) (fst (gen w (gen_pos w + j)))"
    using assms by (simp add: nth_upt del: upt_Suc)
  from gemini_attempts_exhausted[OF this, of cfg model prompt]
  show "fst (call_gemini_with_retry cfg model prompt mr w) = Inl (GenFailed mr)"
    and "gen (snd (call_gemini_with_retry cfg model prompt mr w)) = gen w"
    and "unprintable (snd (call_gemini_with_retry cfg model prompt mr w)) = unprintable w"
    and "gen_pos (snd (call_gemini_with_retry cfg model prompt mr w)) = gen_pos w + mr"
    and "map (\<lambda>c. snd (snd c)) (gen_calls (snd (call_gemini_with_retry cfg model prompt mr w))) =
           map (\<lambda>c. snd (snd c)) (gen_calls w) @ replicate mr prompt"
    by (simp_all add: call_gemini_with_retry_def del: upt_Suc)
qed

lemma call_answer:
  assumes "k < mr"
    and "\<forall>j < k. failing (fst (gen w (gen_pos w + j))) \<and>
      retry_returns w mr (Suc j) (fst (gen w (gen_pos w + j)))"
    and "\<not> failing (fst (gen w (gen_pos w + k)))"
  shows "fst (call_gemini_with_retry cfg model prompt mr w) =
           Inr (case attempt_result (fst (gen w (gen_pos w + k))) of Inr t \<Rightarrow> t | Inl e \<Rightarrow> [])"
    and "gen (snd (call_gemini_with_retry cfg model prompt mr w)) = gen w"
    and "gen_pos (snd (call_gemini_with_retry cfg model prompt mr w)) = gen_pos w + Suc k"
    and "map (\<lambda>c. snd (snd c)) (gen_calls (snd (call_gemini_with_retry cfg model prompt mr w))) =
           map (\<lambda>c. snd (snd c)) (gen_calls w) @ replicate (Suc k) prompt"
proof -
  have k: "k < length [1..<mr + 1]" using assms(1) by simp
  have "\<forall>j < k. failing (fst (gen w (gen_pos w + j))) \<and>
      retry_returns w mr ([1..<mr + 1] ! j) (fst (gen w (gen_pos w + j)))"
    using assms(1,2) by (simp add: nth_upt del: upt_Suc)
  from gemini_attempts_answer[OF k this assms(3), of cfg model prompt]
  show "fst (call_gemini_with_retry cfg model prompt mr w) =
           Inr (case attempt_result (fst (gen w (gen_pos w + k))) of Inr t \<Rightarrow> t | Inl e \<Rightarrow> [])"
    and "gen (snd (call_gemini_with_retry cfg model prompt mr w)) = gen w"
    and "gen_pos (snd (call_gemini_with_retry cfg model prompt mr w)) = gen_pos w + Suc k"
    and "map (\<lambda>c. snd (snd c)) (gen_calls (snd (call_gemini_with_retry cfg model prompt mr w))) =
           map (\<lambda>c. snd (snd c)) (gen_calls w) @ replicate (Suc k) prompt"
    by (simp_all add: call_gemini_with_retry_def del: upt_Suc)
qed


lemma generate_text_unfold:
  "generate_text_with_gemini cfg base_text model w =
     (let p = call_gemini_with_retry cfg model (primary_prompt base_text) 6 w
      in case fst p of
           Inr text \<Rightarrow> p
         | Inl e \<Rightarrow> call_gemini_with_retry cfg model (alternate_prompt base_text) 6 (snd p))"
  by (cases "call_gemini_with_retry cfg model (primary_prompt base_text) 6 w")
     (simp add: generate_text_with_gemini_def Let_def split: sum.splits)


lemma rewrite_answer:
  assumes "k < 12"
    and "\<forall>j < k. failing (fst (gen w (gen_pos w + j))) \<and>
      retry_returns w 6 (j mod 6 + 1) (fst (gen w (gen_pos w + j)))"
    and "\<not> failing (fst (gen w (gen_pos w + k)))"
  shows "fst (generate_text_with_gemini cfg base_text model w) =
           Inr (case attempt_result (fst (gen w (gen_pos w + k))) of Inr t \<Rightarrow> t | Inl e \<Rightarrow> [])"
    and "gen_pos (snd (generate_text_with_gemini cfg base_text model w)) = gen_pos w + Suc k"
    and "map (\<lambda>c. snd (snd c)) (gen_calls (snd (generate_text_with_gemini cfg base_text model w))) =
           map (\<lambda>c. snd (snd c)) (gen_calls w) @
           (replicate (min (Suc k) 6) (primary_prompt base_text) @
            replicate (Suc k - 6) (alternate_prompt base_text))"
proof -
  let ?p = "call_gemini_with_retry cfg model (primary_prompt base_text) 6 w"
  let ?g = "generate_text_with_gemini cfg base_text model w"
  have lo: "\<And>j. j < 6 \<Longrightarrow> j < k \<Longrightarrow> failing (fst (gen w (gen_pos w + j))) \<and>
      retry_returns w 6 (Suc j) (fst (gen w (gen_pos w + j)))"
  proof -
    fix j :: nat assume j: "j < 6" "j < k"
    then have "j mod 6 + 1 = Suc j" by simp
    with assms(2) j(2) show "failing (fst (gen w (gen_pos w + j))) \<and>
      retry_returns w 6 (Suc j) (fst (gen w (gen_pos w + j)))" by metis
  qed
  have hi: "\<And>j. j < 6 \<Longrightarrow> 6 + j < k \<Longrightarrow> failing (fst (gen w (gen_pos w + (6 + j)))) \<and>
      retry_returns w 6 (Suc j) (fst (gen w (gen_pos w + (6 + j))))"
  proof -
    fix j :: nat assume j: "j < 6" "6 + j < k"
    then have "(6 + j) mod 6 + 1 = Suc j" by simp
    with assms(2) j(2) show "failing (fst (gen w (gen_pos w + (6 + j)))) \<and>
      retry_returns w 6 (Suc j) (fst (gen w (gen_pos w + (6 + j))))" by metis
  qed
  have "fst ?g = Inr (case attempt_result (fst (gen w (gen_pos w + k))) of Inr t \<Rightarrow> t | Inl e \<Rightarrow> []) \<and>
     gen_pos (snd ?g) = gen_pos w + Suc k \<and>
     map (\<lambda>c. snd (snd c)) (gen_calls (snd ?g)) =
           map (\<lambda>c. snd (snd c)) (gen_calls w) @
           (replicate (min (Suc k) 6) (primary_prompt base_text) @
            replicate (Suc k - 6) (alternate_prompt base_text))"
  proof (cases "k < 6")
    case True
    have a: "\<forall>j < k. failing (fst (gen w (gen_pos w + j))) \<and>
        retry_returns w 6 (Suc j) (fst (gen w (gen_pos w + j)))"
      using lo True by simp
    note p = call_answer[OF True a assms(3), of cfg model "primary_prompt base_text"]
    have r: "?g = ?p"
      using p(1) by (simp add: generate_text_unfold Let_def)
    have m: "min (Suc k) 6 = Suc k" "Suc k - 6 = 0" using True by simp_all
    show ?thesis unfolding r m by (simp add: p)
  next
    case False
    then have "6 \<le> k" by simp
    then obtain k' where k: "k = 6 + k'" by (auto dest: le_Suc_ex)
    with assms(1) have k': "k' < 6" by simp
    have a: "\<forall>j < 6. failing (fst (gen w (gen_pos w + j))) \<and>
        retry_returns w 6 (Suc j) (fst (gen w (gen_pos w + j)))"
      using lo k by simp
    note p = call_exhausted[OF a, of cfg model "primary_prompt base_text"]
    have "\<And>j. j < k' \<Longrightarrow> failing (fst (gen w (gen_pos w + (6 + j)))) \<and>
        retry_returns w 6 (Suc j) (fst (gen w (gen_pos w + (6 + j))))"
      using hi k k' by simp
    then have b: "\<forall>j < k'. failing (fst (gen (snd ?p) (gen_pos (snd ?p) + j))) \<and>
        retry_returns (snd ?p) 6 (Suc j) (fst (gen (snd ?p) (gen_pos (snd ?p) + j)))"
      by (simp add: p add.assoc retry_returns_cong[OF p(3)])
    have c: "\<not> failing (fst (gen (snd ?p) (gen_pos (snd ?p) + k')))"
      using assms(3) k by (simp add: p add.assoc)
    note q = call_answer[OF k' b c, of cfg model "alternate_prompt base_text"]
    have r: "?g = call_gemini_with_retry cfg model (alternate_prompt base_text) 6 (snd ?p)"
      using p(1) by (simp add: generate_text_unfold Let_def)
    have m: "min (Suc k) 6 = 6" "Suc k - 6 = Suc k'" using k by simp_all
    show ?thesis unfolding r m by (simp add: q p k add.assoc)
  qed
  then show "fst ?g = Inr (case attempt_result (fst (gen w (gen_pos w + k))) of Inr t \<Rightarrow> t | Inl e \<Rightarrow> [])"
    and "gen_pos (snd ?g) = gen_pos w + Suc k"
    and "map (\<lambda>c. snd (snd c)) (gen_calls (snd ?g)) =
           map (\<lambda>c. snd (snd c)) (gen_calls w) @
           (replicate (min (Suc k) 6) (primary_prompt base_text) @
            replicate (Suc k - 6) (alternate_prompt base_text))"
    by simp_all
qed







subsection \<open>What the Wikipedia functions leave alone\<close>

lemma wiki_frame_refl [simp]: "wiki_frame w w"
  by (simp add: wiki_frame_def)

lemma wiki_frame_trans: "wiki_frame w w1 \<Longrightarrow> wiki_frame w1 w2 \<Longrightarrow> wiki_frame w w2"
  by (simp add: wiki_frame_def)

lemma wiki_frame_sleep: "wiki_frame w (sleep d w)"
  by (simp add: wiki_frame_def)

lemma wiki_frame_get: "wiki_frame w (snd (http_get lang ps w))"
  by (simp add: wiki_frame_def)

lemma wiki_frame_attempts: "wiki_frame w (snd (wiki_attempts ps body lang retries backoff ixs last_err w))"
proof (induction ixs arbitrary: w last_err)
  case Nil
  then show ?case by simp
next
  case (Cons i ixs)
  have a: "\<And>d. wiki_frame w (sleep d (snd (http_get lang ps w)))"
    using wiki_frame_get wiki_frame_sleep wiki_frame_trans by blast
  have b: "\<And>le d. wiki_frame w (snd (wiki_attempts ps body lang retries backoff ixs le
              (sleep d (snd (http_get lang ps w)))))"
    using a Cons.IH wiki_frame_trans by blast
  show ?case
    by (simp add: wiki_attempts_step Let_def b wiki_frame_get split: http_outcome.splits)
qed

lemma wiki_frame_request: "wiki_frame w (snd (wiki_request ps body lang retries backoff w))"
  by (simp add: wiki_request_def wiki_frame_attempts)

lemma search_unfold:
  "search_wikipedia_title query lang w =
     (let r = wiki_request (OpenSearch query) (wiki_titles w lang query) lang 3 (3 / 2) w
      in (case fst r of
            Inl e \<Rightarrow> Inl e
          | Inr titles \<Rightarrow> Inr (case titles of [] \<Rightarrow> None | t # ts \<Rightarrow> Some t), snd r))"
  by (simp add: search_wikipedia_title_def Let_def split: prod.splits sum.splits)

lemma wiki_frame_search: "wiki_frame w (snd (search_wikipedia_title query lang w))"
  by (simp add: search_unfold Let_def wiki_frame_request)

lemma wiki_frame_article: "wiki_frame w (snd (get_wikipedia_article depth title lang io w))"
proof (induction depth arbitrary: title w)
  case 0
  then show ?case by simp
next
  case (Suc depth)
  let ?q = "wiki_request (Query title io) (wiki_pages w lang title io) lang 3 (3 / 2) w"
  let ?s = "search_wikipedia_title title lang (snd ?q)"
  have q: "wiki_frame w (snd ?q)" by (rule wiki_frame_request)
  have s: "wiki_frame w (snd ?s)"
    using q wiki_frame_search wiki_frame_trans by blast
  have r: "\<And>a. wiki_frame w (snd (get_wikipedia_article depth a lang io (snd ?s)))"
    using s Suc.IH wiki_frame_trans by blast
  obtain qr qw where qe: "?q = (qr, qw)" by (cases ?q)
  obtain sr sw where se: "search_wikipedia_title title lang qw = (sr, sw)"
    by (cases "search_wikipedia_title title lang qw")
  from qe se have e: "snd ?q = qw" "snd ?s = sw" by simp_all
  show ?case
    using q s r unfolding e
    by (simp add: qe se Let_def split: sum.splits list.splits option.splits)
qed


subsection \<open>What the generation functions leave alone\<close>

lemma gen_frame_refl [simp]: "gen_frame w w"
  by (simp add: gen_frame_def)

lemma gen_frame_trans: "gen_frame w w1 \<Longrightarrow> gen_frame w1 w2 \<Longrightarrow> gen_frame w w2"
  by (auto simp: gen_frame_def)

lemma calls_with_refl [simp]: "calls_with S w w"
  by (simp add: calls_with_def)

lemma calls_with_trans: "calls_with S w w1 \<Longrightarrow> calls_with S w1 w2 \<Longrightarrow> calls_with S w w2"
  by (auto simp: calls_with_def)

lemma calls_with_mono: "calls_with S w w' \<Longrightarrow> S \<subseteq> T \<Longrightarrow> calls_with T w w'"
  by (auto simp: calls_with_def list_all_iff)

lemma calls_with_same: "gen_calls w' = gen_calls w \<Longrightarrow> calls_with S w w'"
  by (simp add: calls_with_def)

lemma spaced_snoc:
  "spaced d (ts @ [t]) \<longleftrightarrow> spaced d ts \<and> (ts = [] \<or> last ts + d \<le> t)"
  by (induction d ts rule: spaced.induct) auto

lemma throttle_frame: "gen_frame w (client_throttle_sleep cfg w)"
  by (simp add: gen_frame_def client_throttle_sleep_def Let_def)

lemma throttle_post:
  assumes "ENFORCE_CLIENT_THROTTLE cfg" and "0 < FREE_TIER_RPM cfg"
  shows "last_call_ts (client_throttle_sleep cfg w) = clock (client_throttle_sleep cfg w)"
    and "last_call_ts w + min_interval cfg \<le> clock (client_throttle_sleep cfg w)"
  using assms by (simp_all add: client_throttle_sleep_def min_interval_def Let_def)

lemma attempt_frame:
  "gen_frame w (snd (generate_content model prompt (client_throttle_sleep cfg w)))"
  using throttle_frame[of w cfg]
  by (simp add: gen_frame_def)

lemma attempt_calls:
  "calls_with {prompt} w (snd (generate_content model prompt (client_throttle_sleep cfg w)))"
  by (simp add: calls_with_def)

lemma attempt_throttled:
  assumes "ENFORCE_CLIENT_THROTTLE cfg" and "0 < FREE_TIER_RPM cfg" and "throttled cfg w"
  shows "throttled cfg (snd (generate_content model prompt (client_throttle_sleep cfg w)))"
proof -
  let ?w1 = "client_throttle_sleep cfg w"
  note p = throttle_post[OF assms(1,2), of w]
  show ?thesis
  proof (cases "gen_calls w = []")
    case True
    then show ?thesis using p(1) by (simp add: throttled_def)
  next
    case False
    then have "last (map fst (gen_calls w)) = last_call_ts w"
      using assms(3) by (simp add: throttled_def last_map)
    then have "last (map fst (gen_calls w)) + min_interval cfg \<le> clock ?w1"
      using p(2) by simp
    then show ?thesis
      using assms(3) p(1) by (simp add: throttled_def spaced_snoc)
  qed
qed

lemma retry_wait_frame: "is_gen_event ev \<Longrightarrow> gen_frame w (sleep d (print_event ev w))"
  by (simp add: gen_frame_def)

lemma print_frame: "is_gen_event ev \<Longrightarrow> gen_frame w (print_event ev w)"
  by (simp add: gen_frame_def)

lemma throttled_cong:
  "gen_calls w' = gen_calls w \<Longrightarrow> last_call_ts w' = last_call_ts w \<Longrightarrow> throttled cfg w' = throttled cfg w"
  by (simp add: throttled_def)

lemma gemini_attempts_frame:
  "gen_frame w (snd (gemini_attempts cfg model prompt mr atts w)) \<and>
   calls_with {prompt} w (snd (gemini_attempts cfg model prompt mr atts w)) \<and>
   (ENFORCE_CLIENT_THROTTLE cfg \<and> 0 < FREE_TIER_RPM cfg \<and> throttled cfg w \<longrightarrow>
      throttled cfg (snd (gemini_attempts cfg model prompt mr atts w)))"
proof (induction atts arbitrary: w)
  case Nil
  then show ?case by simp
next
  case (Cons a atts)
  let ?w2 = "snd (generate_content model prompt (client_throttle_sleep cfg w))"
  show ?case
  proof (cases "attempt_result (fst (gen w (gen_pos w)))")
    case (Inr t)
    then show ?thesis
      using attempt_frame attempt_calls attempt_throttled
      by (simp add: gemini_attempts_step Let_def)
  next
    case (Inl e)
    let ?ev = "RetryWait e (retry_seconds (gen_exc_str e) a) a mr"
    let ?wp = "print_event ?ev ?w2"
    let ?w3 = "sleep (retry_seconds (gen_exc_str e) a) ?wp"
    let ?w4 = "snd (gemini_attempts cfg model prompt mr atts ?w3)"
    let ?T = "ENFORCE_CLIENT_THROTTLE cfg \<and> 0 < FREE_TIER_RPM cfg \<and> throttled cfg w"
    have f2: "gen_frame w ?w2" by (rule attempt_frame)
    have c2: "calls_with {prompt} w ?w2" by (rule attempt_calls)
    have t2: "?T \<longrightarrow> throttled cfg ?w2"
      using attempt_throttled[of cfg w model prompt] by simp
    have fp: "gen_frame w ?wp"
      by (rule gen_frame_trans[OF attempt_frame print_frame]) simp
    have cp: "calls_with {prompt} w ?wp"
      using c2 by (simp add: calls_with_def)
    have tp: "?T \<longrightarrow> throttled cfg ?wp"
      using t2 throttled_cong[of ?wp ?w2 cfg] by simp
    have f3: "gen_frame w ?w3"
      by (rule gen_frame_trans[OF attempt_frame retry_wait_frame]) simp
    have c3: "calls_with {prompt} w ?w3"
      using c2 by (simp add: calls_with_def)
    have t3: "?T \<longrightarrow> throttled cfg ?w3"
      using t2 throttled_cong[of ?w3 ?w2 cfg] by simp
    have "gen_frame w ?w4 \<and> calls_with {prompt} w ?w4 \<and> (?T \<longrightarrow> throttled cfg ?w4)"
      using Cons.IH[of ?w3] f3 c3 t3 gen_frame_trans calls_with_trans by blast
    then show ?thesis
      using f2 c2 t2 fp cp tp by (simp add: gemini_attempts_step Let_def Inl)
  qed
qed

lemma gemini_attempts_first:
  "\<exists>cs. gen_calls (snd (gemini_attempts cfg model prompt mr (a # atts) w)) =
     gen_calls w @ (clock (client_throttle_sleep cfg w), model, prompt) # cs"
proof -
  let ?w2 = "snd (generate_content model prompt (client_throttle_sleep cfg w))"
  let ?c = "(clock (client_throttle_sleep cfg w), model, prompt)"
  have later: "\<And>w' :: world. gen_calls w' = gen_calls ?w2 \<Longrightarrow>
      \<exists>cs. gen_calls (snd (gemini_attempts cfg model prompt mr atts w')) = gen_calls w @ ?c # cs"
  proof -
    fix w' :: world assume a: "gen_calls w' = gen_calls ?w2"
    have "calls_with {prompt} w' (snd (gemini_attempts cfg model prompt mr atts w'))"
      using gemini_attempts_frame by blast
    then show "\<exists>cs. gen_calls (snd (gemini_attempts cfg model prompt mr atts w')) = gen_calls w @ ?c # cs"
      by (auto simp: calls_with_def a)
  qed
  show ?thesis
  proof (cases "attempt_result (fst (gen w (gen_pos w)))")
    case (Inr t)
    then show ?thesis by (simp add: gemini_attempts_step Let_def)
  next
    case (Inl e)
    then show ?thesis
      using later by (simp add: gemini_attempts_step Let_def)
  qed
qed

lemma call_frame:
  "gen_frame w (snd (call_gemini_with_retry cfg model prompt mr w))"
  "calls_with {prompt} w (snd (call_gemini_with_retry cfg model prompt mr w))"
  "ENFORCE_CLIENT_THROTTLE cfg \<Longrightarrow> 0 < FREE_TIER_RPM cfg \<Longrightarrow> throttled cfg w \<Longrightarrow>
     throttled cfg (snd (call_gemini_with_retry cfg model prompt mr w))"
  using gemini_attempts_frame[of w cfg model prompt mr "[1..<mr + 1]"]
  by (simp_all add: call_gemini_with_retry_def)

lemma call_first:
  "0 < mr \<Longrightarrow>
   \<exists>cs. gen_calls (snd (call_gemini_with_retry cfg model prompt mr w)) =
     gen_calls w @ (clock (client_throttle_sleep cfg w), model, prompt) # cs"
proof -
  assume "0 < mr"
  then have eq: "[1..<mr + 1] = 1 # [Suc 1..<mr + 1]" by (intro upt_conv_Cons) simp
  show ?thesis
    unfolding call_gemini_with_retry_def eq by (rule gemini_attempts_first)
qed

lemma rewrite_frame:
  "gen_frame w (snd (generate_text_with_gemini cfg base_text model w))"
  "calls_with {primary_prompt base_text, alternate_prompt base_text} w
     (snd (generate_text_with_gemini cfg base_text model w))"
  "ENFORCE_CLIENT_THROTTLE cfg \<Longrightarrow> 0 < FREE_TIER_RPM cfg \<Longrightarrow> throttled cfg w \<Longrightarrow>
     throttled cfg (snd (generate_text_with_gemini cfg base_text model w))"
proof -
  let ?S = "{primary_prompt base_text, alternate_prompt base_text}"
  let ?p = "call_gemini_with_retry cfg model (primary_prompt base_text) 6 w"
  let ?a = "call_gemini_with_retry cfg model (alternate_prompt base_text) 6 (snd ?p)"
  have p: "calls_with ?S w (snd ?p)"
    using call_frame(2)[of "primary_prompt base_text" w cfg model 6] calls_with_mono by blast
  have a: "calls_with ?S (snd ?p) (snd ?a)"
    using call_frame(2)[of "alternate_prompt base_text" "snd ?p" cfg model 6] calls_with_mono by blast
  have "gen_frame w (snd ?a)"
    by (rule gen_frame_trans[OF call_frame(1) call_frame(1)])
  then show "gen_frame w (snd (generate_text_with_gemini cfg base_text model w))"
    using call_frame(1)[of w cfg model "primary_prompt base_text" 6]
    by (simp add: generate_text_unfold Let_def split: sum.splits)
  show "calls_with ?S w (snd (generate_text_with_gemini cfg base_text model w))"
    using p a calls_with_trans
    by (auto simp: generate_text_unfold Let_def split: sum.splits)
  show "ENFORCE_CLIENT_THROTTLE cfg \<Longrightarrow> 0 < FREE_TIER_RPM cfg \<Longrightarrow> throttled cfg w \<Longrightarrow>
     throttled cfg (snd (generate_text_with_gemini cfg base_text model w))"
    using call_frame(3)
    by (auto simp: generate_text_unfold Let_def split: sum.splits)
qed


lemma rewrite_first:
  "\<exists>ps. prompts_since (length (gen_calls w)) (snd (generate_text_with_gemini cfg base_text model w)) =
     primary_prompt base_text # ps \<and>
     set ps \<subseteq> {primary_prompt base_text, alternate_prompt base_text}"
proof -
  let ?S = "{primary_prompt base_text, alternate_prompt base_text}"
  let ?r = "snd (generate_text_with_gemini cfg base_text model w)"
  let ?p = "call_gemini_with_retry cfg model (primary_prompt base_text) 6 w"
  obtain cs where cs: "gen_calls (snd ?p) =
      gen_calls w @ (clock (client_throttle_sleep cfg w), model, primary_prompt base_text) # cs"
    using call_first[of 6 cfg model "primary_prompt base_text" w] by auto
  have "calls_with ?S (snd ?p) ?r"
    using call_frame(2)[of "alternate_prompt base_text" "snd ?p" cfg model 6] calls_with_mono[of "{alternate_prompt base_text}" "snd ?p" _ ?S]
    by (auto simp: generate_text_unfold Let_def split: sum.splits)
  then obtain ds where ds: "gen_calls ?r = gen_calls (snd ?p) @ ds"
    by (auto simp: calls_with_def)
  have "calls_with ?S w ?r" by (rule rewrite_frame(2))
  then obtain es where es: "gen_calls ?r = gen_calls w @ es" "list_all (\<lambda>c. snd (snd c) \<in> ?S) es"
    by (auto simp: calls_with_def)
  from cs ds es(1) have e: "es = (clock (client_throttle_sleep cfg w), model, primary_prompt base_text) # cs @ ds"
    by simp
  have "prompts_since (length (gen_calls w)) ?r = map (\<lambda>c. snd (snd c)) es"
    by (simp add: prompts_since_def es(1))
  then have "prompts_since (length (gen_calls w)) ?r =
      primary_prompt base_text # map (\<lambda>c. snd (snd c)) (cs @ ds)"
    by (simp add: e)
  moreover have "set (map (\<lambda>c. snd (snd c)) (cs @ ds)) \<subseteq> ?S"
    using es(2) unfolding e by (auto simp: list_all_iff)
  ultimately show ?thesis by blast
qed

subsection \<open>One topic\<close>

lemma save_texts_fields:
  "gen_calls (snd (save_texts base_dir title original generated w)) = gen_calls w"
  "last_call_ts (snd (save_texts base_dir title original generated w)) = last_call_ts w"
  "unicode_alnum (snd (save_texts base_dir title original generated w)) = unicode_alnum w"
  "unprintable (snd (save_texts base_dir title original generated w)) = unprintable w"
  "stdout (snd (save_texts base_dir title original generated w)) =
     stdout w @ (if fst (save_texts base_dir title original generated w) = Inr ()
                 then [Saved (slugify (unicode_alnum w) title)] else [])"
  by (simp_all add: save_texts_unfold Let_def print_line_unfold split: sum.splits)


lemma save_texts_ok:
  assumes "fst (save_texts base_dir title original generated w) = Inr ()"
  shows "files (snd (save_texts base_dir title original generated w))
           (original_path base_dir (slugify (unicode_alnum w) title)) = Some original"
    and "files (snd (save_texts base_dir title original generated w))
           (ia_path base_dir (slugify (unicode_alnum w) title)) = Some generated"
  using save_texts_outcome[of w title base_dir original generated] assms by (simp_all add: Let_def)

lemma topic_pipeline_unfold:
  "topic_pipeline cfg raw_title lang io model w =
     (let a = get_wikipedia_article (recursion_limit cfg) raw_title lang io w
      in case fst a of
           Inl e \<Rightarrow> (Inl e, snd a)
         | Inr found \<Rightarrow>
             (let g = generate_text_with_gemini cfg
                        (truncate_for_prompt (snd found) MAX_CHARS_PROMPT) model (snd a)
              in case fst g of
                   Inl e \<Rightarrow> (Inl e, snd g)
                 | Inr generated \<Rightarrow> save_texts SAVE_DIR (fst found) (snd found) generated (snd g)))"
  by (simp add: topic_pipeline_def Let_def split: prod.splits sum.splits)

lemma prompts_since_calls_with:
  "calls_with S w w' \<Longrightarrow> set (prompts_since (length (gen_calls w)) w') \<subseteq> S"
  by (auto simp: calls_with_def prompts_since_def list_all_iff)

lemma topic_pipeline_cases:
  fixes cfg raw_title lang io model w
  defines "a \<equiv> get_wikipedia_article (recursion_limit cfg) raw_title lang io w"
  defines "g \<equiv> \<lambda>original. generate_text_with_gemini cfg
                    (truncate_for_prompt original MAX_CHARS_PROMPT) model (snd a)"
  defines "r \<equiv> topic_pipeline cfg raw_title lang io model w"
  obtains (no_article) e where "fst a = Inl e" "r = (Inl e, snd a)"
    | (no_text) norm_title original e where "fst a = Inr (norm_title, original)"
        "fst (g original) = Inl e" "r = (Inl e, snd (g original))"
    | (saving) norm_title original generated where "fst a = Inr (norm_title, original)"
        "fst (g original) = Inr generated"
        "r = save_texts SAVE_DIR norm_title original generated (snd (g original))"
proof (cases "fst a")
  case (Inl e)
  then have "r = (Inl e, snd a)"
    by (simp add: r_def topic_pipeline_unfold a_def[symmetric] Let_def)
  with Inl show ?thesis by (rule no_article)
next
  case (Inr found)
  obtain norm_title original where f: "found = (norm_title, original)" by (cases found)
  show ?thesis
  proof (cases "fst (g original)")
    case (Inl e)
    then have "r = (Inl e, snd (g original))"
      using Inr f by (simp add: r_def topic_pipeline_unfold a_def[symmetric] g_def Let_def)
    with Inr f Inl show ?thesis using no_text by simp
  next
    case gen: (Inr generated)
    then have "r = save_texts SAVE_DIR norm_title original generated (snd (g original))"
      using Inr f by (simp add: r_def topic_pipeline_unfold a_def[symmetric] g_def Let_def)
    with Inr f gen show ?thesis using saving by simp
  qed
qed

lemma article_frame_facts:
  "unicode_alnum (snd (get_wikipedia_article depth title lang io w)) = unicode_alnum w"
  "files (snd (get_wikipedia_article depth title lang io w)) = files w"
  "stdout (snd (get_wikipedia_article depth title lang io w)) = stdout w"
  "gen_calls (snd (get_wikipedia_article depth title lang io w)) = gen_calls w"
  "last_call_ts (snd (get_wikipedia_article depth title lang io w)) = last_call_ts w"
  "unprintable (snd (get_wikipedia_article depth title lang io w)) = unprintable w"
  using wiki_frame_article[of w depth title lang io] by (simp_all add: wiki_frame_def)

lemma rewrite_frame_facts:
  "unicode_alnum (snd (generate_text_with_gemini cfg base_text model w)) = unicode_alnum w"
  "files (snd (generate_text_with_gemini cfg base_text model w)) = files w"
  "\<exists>evs. stdout (snd (generate_text_with_gemini cfg base_text model w)) = stdout w @ evs \<and>
     list_all is_gen_event evs"
  "unprintable (snd (generate_text_with_gemini cfg base_text model w)) = unprintable w"
  using rewrite_frame(1)[of w cfg base_text model] by (simp_all add: gen_frame_def)


lemma pipeline_alnum:
  "unicode_alnum (snd (topic_pipeline cfg raw_title lang io model w)) = unicode_alnum w"
  by (cases rule: topic_pipeline_cases[of cfg raw_title lang io w model])
     (simp_all add: article_frame_facts rewrite_frame_facts save_texts_fields)

lemma pipeline_unprintable:
  "unprintable (snd (topic_pipeline cfg raw_title lang io model w)) = unprintable w"
  by (cases rule: topic_pipeline_cases[of cfg raw_title lang io w model])
     (simp_all add: article_frame_facts rewrite_frame_facts save_texts_fields)



lemma pipeline_throttled:
  assumes "ENFORCE_CLIENT_THROTTLE cfg" and "0 < FREE_TIER_RPM cfg" and "throttled cfg w"
  shows "throttled cfg (snd (topic_pipeline cfg raw_title lang io model w))"
proof -
  let ?a = "get_wikipedia_article (recursion_limit cfg) raw_title lang io w"
  have a: "throttled cfg (snd ?a)"
    using assms(3) by (simp add: throttled_def article_frame_facts)
  note g = rewrite_frame(3)[OF assms(1,2) a]
  show ?thesis
  proof (cases rule: topic_pipeline_cases[of cfg raw_title lang io w model])
    case (no_article e)
    then show ?thesis using a by simp
  next
    case (no_text norm_title original e)
    then show ?thesis using g by simp
  next
    case (saving norm_title original generated)
    show ?thesis
      unfolding saving(3) using g[of "truncate_for_prompt original MAX_CHARS_PROMPT" model]
      by (simp add: throttled_def save_texts_fields)
  qed
qed

lemma pipeline_calls:
  assumes "fst (get_wikipedia_article (recursion_limit cfg) raw_title lang io w) = Inr (norm_title, original_text)"
  shows "calls_with {primary_prompt (truncate_for_prompt original_text MAX_CHARS_PROMPT),
                     alternate_prompt (truncate_for_prompt original_text MAX_CHARS_PROMPT)} w
           (snd (topic_pipeline cfg raw_title lang io model w))"
proof -
  let ?a = "get_wikipedia_article (recursion_limit cfg) raw_title lang io w"
  let ?S = "{primary_prompt (truncate_for_prompt original_text MAX_CHARS_PROMPT),
             alternate_prompt (truncate_for_prompt original_text MAX_CHARS_PROMPT)}"
  let ?g = "generate_text_with_gemini cfg (truncate_for_prompt original_text MAX_CHARS_PROMPT) model (snd ?a)"
  have "calls_with ?S (snd ?a) (snd ?g)" by (rule rewrite_frame(2))
  then have g: "calls_with ?S w (snd ?g)"
    by (simp add: calls_with_def article_frame_facts)
  show ?thesis
  proof (cases rule: topic_pipeline_cases[of cfg raw_title lang io w model])
    case (no_article e)
    with assms show ?thesis by simp
  next
    case (no_text nt ot e)
    with assms g show ?thesis by simp
  next
    case (saving nt ot gt)
    with assms have "nt = norm_title" "ot = original_text" by simp_all
    then show ?thesis
      unfolding saving(3) using g by (simp add: calls_with_def save_texts_fields)
  qed
qed

lemma pipeline_original:
  assumes "fst (get_wikipedia_article (recursion_limit cfg) raw_title lang io w) = Inr (norm_title, original_text)"
    and "fst (topic_pipeline cfg raw_title lang io model w) = Inr ()"
  shows "files (snd (topic_pipeline cfg raw_title lang io model w))
           (original_path SAVE_DIR (slugify (unicode_alnum w) norm_title)) = Some original_text"
proof (cases rule: topic_pipeline_cases[of cfg raw_title lang io w model])
  case (no_article e)
  with assms show ?thesis by simp
next
  case (no_text nt ot e)
  with assms show ?thesis by simp
next
  case (saving nt ot gt)
  with assms(1) have e: "nt = norm_title" "ot = original_text" by simp_all
  from assms(2) have ok: "fst (save_texts SAVE_DIR nt ot gt (snd (generate_text_with_gemini cfg
      (truncate_for_prompt ot MAX_CHARS_PROMPT) model
      (snd (get_wikipedia_article (recursion_limit cfg) raw_title lang io w))))) = Inr ()"
    unfolding saving(3) .
  show ?thesis
    unfolding saving(3) using save_texts_ok(1)[OF ok]
    by (simp add: e rewrite_frame_facts article_frame_facts)
qed



lemma truncate_for_prompt_cases:
  "(MAX_CHARS_PROMPT < length text \<longrightarrow>
      truncate_for_prompt text MAX_CHARS_PROMPT =
        take 12000 text @ [10, 10] @ py ''[Texto truncado por comprimento.]'') \<and>
   (length text \<le> MAX_CHARS_PROMPT \<longrightarrow> truncate_for_prompt text MAX_CHARS_PROMPT = text)"
  by (simp add: truncate_for_prompt_def MAX_CHARS_PROMPT_def)

lemma pipeline_first:
  assumes "fst (get_wikipedia_article (recursion_limit cfg) raw_title lang io w) = Inr (norm_title, original_text)"
  shows "\<exists>ps. prompts_since (length (gen_calls w)) (snd (topic_pipeline cfg raw_title lang io model w)) =
           primary_prompt (truncate_for_prompt original_text MAX_CHARS_PROMPT) # ps"
proof -
  let ?a = "get_wikipedia_article (recursion_limit cfg) raw_title lang io w"
  let ?sent = "truncate_for_prompt original_text MAX_CHARS_PROMPT"
  let ?g = "generate_text_with_gemini cfg ?sent model (snd ?a)"
  have n: "length (gen_calls (snd ?a)) = length (gen_calls w)" by (simp add: article_frame_facts)
  obtain ps where "prompts_since (length (gen_calls (snd ?a))) (snd ?g) = primary_prompt ?sent # ps"
    using rewrite_first[of "snd ?a" cfg ?sent model] by blast
  then have g: "prompts_since (length (gen_calls w)) (snd ?g) = primary_prompt ?sent # ps"
    by (simp add: n)
  show ?thesis
  proof (cases rule: topic_pipeline_cases[of cfg raw_title lang io w model])
    case (no_article e)
    with assms show ?thesis by simp
  next
    case (no_text nt ot e)
    with assms g show ?thesis by simp
  next
    case (saving nt ot gt)
    with assms have "nt = norm_title" "ot = original_text" by simp_all
    then show ?thesis
      unfolding saving(3) using g by (simp add: prompts_since_def save_texts_fields)
  qed
qed

text \<open>
  C10. Take a run of the \<^verbatim>\<open>try\<close> block of \<^verbatim>\<open>collect_and_generate_for_title\<close> in which the
  article is resolved. The model is called, first with the primary prompt built on
  \<^verbatim>\<open>truncate_for_prompt(original_text)\<close>, and every prompt sent to it in that run is the
  primary or the alternate prompt built on that text; that text is the first 12000
  characters followed by the marker when the body has more than 12000 characters, and
  the body itself otherwise; when the run ends without an exception, the original
  file holds the whole body, which for a body within the limit is the text sent.
\<close>

theorem prompt_truncated_original_whole:
  "fst (get_wikipedia_article (recursion_limit cfg) raw_title lang io w) = Inr (norm_title, original_text) \<longrightarrow>
     (let r = topic_pipeline cfg raw_title lang io model w;
          sent = truncate_for_prompt original_text MAX_CHARS_PROMPT;
          original_file = files (snd r) (original_path SAVE_DIR (slugify (unicode_alnum w) norm_title))
      in (\<exists>ps. prompts_since (length (gen_calls w)) (snd r) = primary_prompt sent # ps) \<and>
         set (prompts_since (length (gen_calls w)) (snd r)) \<subseteq> {primary_prompt sent, alternate_prompt sent} \<and>
         (fst r = Inr () \<longrightarrow> original_file = Some original_text) \<and>
         (12000 < length original_text \<longrightarrow>
            sent = take 12000 original_text @ [10, 10] @ py ''[Texto truncado por comprimento.]'') \<and>
         (length original_text \<le> 12000 \<longrightarrow> sent = original_text) \<and>
         (length original_text \<le> 12000 \<and> fst r = Inr () \<longrightarrow> original_file = Some sent))"
proof
  assume a: "fst (get_wikipedia_article (recursion_limit cfg) raw_title lang io w) = Inr (norm_title, original_text)"
  have t: "(12000 < length original_text \<longrightarrow>
      truncate_for_prompt original_text MAX_CHARS_PROMPT =
        take 12000 original_text @ [10, 10] @ py ''[Texto truncado por comprimento.]'') \<and>
      (length original_text \<le> 12000 \<longrightarrow> truncate_for_prompt original_text MAX_CHARS_PROMPT = original_text)"
    using truncate_for_prompt_cases[of original_text] by (simp add: MAX_CHARS_PROMPT_def)
  show "let r = topic_pipeline cfg raw_title lang io model w;
          sent = truncate_for_prompt original_text MAX_CHARS_PROMPT;
          original_file = files (snd r) (original_path SAVE_DIR (slugify (unicode_alnum w) norm_title))
      in (\<exists>ps. prompts_since (length (gen_calls w)) (snd r) = primary_prompt sent # ps) \<and>
         set (prompts_since (length (gen_calls w)) (snd r)) \<subseteq> {primary_prompt sent, alternate_prompt sent} \<and>
         (fst r = Inr () \<longrightarrow> original_file = Some original_text) \<and>
         (12000 < length original_text \<longrightarrow>
            sent = take 12000 original_text @ [10, 10] @ py ''[Texto truncado por comprimento.]'') \<and>
         (length original_text \<le> 12000 \<longrightarrow> sent = original_text) \<and>
         (length original_text \<le> 12000 \<and> fst r = Inr () \<longrightarrow> original_file = Some sent)"
    unfolding Let_def
    using prompts_since_calls_with[OF pipeline_calls[OF a, of model]] pipeline_original[OF a, of model] t
      pipeline_first[OF a, of model]
    by metis
qed

lemma article_found:
  assumes "\<not> retried (http w (http_pos w))"
    and "wiki_pages w lang title io = (key, pg) # others"
    and "page_missing pg \<noteq> Some []" and "page_pageid pg \<noteq> Some (- 1)"
    and "page_extract pg = Some body" and "body \<noteq> []"
  shows "fst (get_wikipedia_article (Suc depth) title lang io w) =
           Inr (case page_title pg of None \<Rightarrow> title | Some n \<Rightarrow> n, body)"
proof -
  have "fst (wiki_request (Query title io) (wiki_pages w lang title io) lang 3 (3 / 2) w) =
      Inr (wiki_pages w lang title io)"
    using wiki_attempts_answer[of 0 "[0..<3]" w "Query title io" "wiki_pages w lang title io" lang 3 "3 / 2" None]
      assms(1)
    by (simp add: wiki_request_def)
  then show ?thesis
    using assms(2-) by (auto simp: Let_def split: prod.splits)
qed

lemma has_surrogate_replicate:
  "has_surrogate (replicate n c) \<longleftrightarrow> 0 < n \<and> 55296 \<le> c \<and> c \<le> 57343"
  by (induction n) (auto simp: has_surrogate_def)

lemma pipeline_succeeds:
  assumes a: "fst (get_wikipedia_article (recursion_limit cfg) raw_title lang io w) = Inr (norm_title, original_text)"
    and g: "attempt_result (fst (gen w (gen_pos w))) = Inr answer"
    and d: "fs w (fs_pos w) = FsOk" "fs w (fs_pos w + 1) = FsOk" "fs w (fs_pos w + 2) = FsOk"
    and enc: "\<not> has_surrogate original_text" "\<not> has_surrogate answer"
    and pr: "\<not> unprintable w (Saved (slugify (unicode_alnum w) norm_title))"
  shows "fst (topic_pipeline cfg raw_title lang io model w) = Inr ()"
proof -
  let ?a = "get_wikipedia_article (recursion_limit cfg) raw_title lang io w"
  let ?g = "generate_text_with_gemini cfg (truncate_for_prompt original_text MAX_CHARS_PROMPT) model (snd ?a)"
  have fa: "wiki_frame w (snd ?a)" by (rule wiki_frame_article)
  then have ga: "gen (snd ?a) = gen w" "gen_pos (snd ?a) = gen_pos w" by (simp_all add: wiki_frame_def)
  have nf: "\<not> failing (fst (gen (snd ?a) (gen_pos (snd ?a) + 0)))"
    using g attempt_result_failing[of "fst (gen w (gen_pos w))"] by (simp add: ga)
  have "fst ?g = Inr (case attempt_result (fst (gen (snd ?a) (gen_pos (snd ?a) + 0))) of
      Inr t \<Rightarrow> t | Inl e \<Rightarrow> [])"
    by (rule rewrite_answer(1)[OF _ _ nf]) simp_all
  then have fg: "fst ?g = Inr answer" using g by (simp add: ga)
  have fr: "gen_frame (snd ?a) (snd ?g)" by (rule rewrite_frame(1))
  have same: "fs (snd ?g) = fs w" "fs_pos (snd ?g) = fs_pos w" "unprintable (snd ?g) = unprintable w"
    "unicode_alnum (snd ?g) = unicode_alnum w"
    using fa fr by (simp_all add: wiki_frame_def gen_frame_def)
  have r: "topic_pipeline cfg raw_title lang io model w =
      save_texts SAVE_DIR norm_title original_text answer (snd ?g)"
    by (simp add: topic_pipeline_unfold Let_def a fg)
  show ?thesis
    unfolding r
    using save_texts_outcome[of "snd ?g" norm_title SAVE_DIR original_text answer] d enc pr
    by (simp add: Let_def same)
qed

text \<open>C10 on an article of 12001 characters and on a short one.\<close>

theorem prompt_truncated_original_whole_witness:
  "(\<exists>ps. prompts_since 0 (snd (topic_pipeline module_config (py ''brasil'') WIKI_LANG INTRO_ONLY
          (py ''gemini-1.5-flash'') long_world)) =
      primary_prompt (replicate 12000 97 @ [10, 10] @ py ''[Texto truncado por comprimento.]'') # ps) \<and>
   set (prompts_since 0 (snd (topic_pipeline module_config (py ''brasil'') WIKI_LANG INTRO_ONLY
          (py ''gemini-1.5-flash'') long_world))) \<subseteq>
     {primary_prompt (replicate 12000 97 @ [10, 10] @ py ''[Texto truncado por comprimento.]''),
      alternate_prompt (replicate 12000 97 @ [10, 10] @ py ''[Texto truncado por comprimento.]'')} \<and>
   files (snd (topic_pipeline module_config (py ''brasil'') WIKI_LANG INTRO_ONLY
          (py ''gemini-1.5-flash'') long_world)) (original_path SAVE_DIR (py ''Brasil''))
     = Some (replicate 12001 97) \<and>
   (\<exists>ps. prompts_since 0 (snd (topic_pipeline module_config (py ''brasil'') WIKI_LANG INTRO_ONLY
          (py ''gemini-1.5-flash'') brasil_world)) = primary_prompt (py ''O Brasil'') # ps) \<and>
   set (prompts_since 0 (snd (topic_pipeline module_config (py ''brasil'') WIKI_LANG INTRO_ONLY
          (py ''gemini-1.5-flash'') brasil_world))) \<subseteq>
     {primary_prompt (py ''O Brasil''), alternate_prompt (py ''O Brasil'')} \<and>
   files (snd (topic_pipeline module_config (py ''brasil'') WIKI_LANG INTRO_ONLY
          (py ''gemini-1.5-flash'') brasil_world)) (original_path SAVE_DIR (py ''Brasil''))
     = Some (py ''O Brasil'')"
proof -
  let ?long = "snd (topic_pipeline module_config (py ''brasil'') WIKI_LANG INTRO_ONLY
          (py ''gemini-1.5-flash'') long_world)"
  let ?short = "snd (topic_pipeline module_config (py ''brasil'') WIKI_LANG INTRO_ONLY
          (py ''gemini-1.5-flash'') brasil_world)"
  let ?cut = "replicate 12000 97 @ [10, 10] @ py ''[Texto truncado por comprimento.]''"
  have rl: "recursion_limit module_config = Suc 899" by (simp add: module_config_def)
  have la: "fst (get_wikipedia_article (recursion_limit module_config) (py ''brasil'') WIKI_LANG INTRO_ONLY long_world)
      = Inr (py ''Brasil'', replicate 12001 97)"
    unfolding rl
    using article_found[where w = long_world and lang = WIKI_LANG and title = "py ''brasil''" and io = INTRO_ONLY
        and key = "py ''42''" and others = "[]" and body = "replicate 12001 97" and depth = 899
        and pg = "\<lparr>page_missing = None, page_pageid = Some 42, page_title = Some (py ''Brasil''),
                   page_extract = Some (replicate 12001 97)\<rparr>"]
    by (simp add: long_world_def calm_world_def found_page_def)
  have l0: "length (gen_calls long_world) = 0" "length (gen_calls brasil_world) = 0"
    by (simp_all add: long_world_def brasil_world_def calm_world_def)
  have long: "(12000::nat) < length (replicate 12001 (97::int))" by simp
  have tk: "take 12000 (replicate 12001 (97::int)) = replicate 12000 97" by simp
  have "slugify ascii_alnum (py ''Brasil'') = py ''Brasil''" by code_simp
  then have slugl: "slugify (unicode_alnum long_world) (py ''Brasil'') = py ''Brasil''"
    by (simp add: long_world_def calm_world_def)
  have answer: "attempt_result (fst (gen long_world (gen_pos long_world))) = Inr (py ''ok'')"
    by (simp add: long_world_def calm_world_def attempt_result_def strip_chars_def is_space_def py_def)
  have disk: "fs long_world (fs_pos long_world) = FsOk" "fs long_world (fs_pos long_world + 1) = FsOk"
    "fs long_world (fs_pos long_world + 2) = FsOk"
    "\<not> unprintable long_world (Saved (slugify (unicode_alnum long_world) (py ''Brasil'')))"
    by (simp_all add: long_world_def calm_world_def)
  have enc: "\<not> has_surrogate (replicate 12001 97)" "\<not> has_surrogate (py ''ok'')"
    by (simp_all add: has_surrogate_replicate) (simp add: has_surrogate_def py_def)
  have okl: "fst (topic_pipeline module_config (py ''brasil'') WIKI_LANG INTRO_ONLY
          (py ''gemini-1.5-flash'') long_world) = Inr ()"
    by (rule pipeline_succeeds[OF la answer disk(1,2,3) enc disk(4)])
  have A: "(\<exists>ps. prompts_since 0 ?long = primary_prompt ?cut # ps) \<and>
      set (prompts_since 0 ?long) \<subseteq> {primary_prompt ?cut, alternate_prompt ?cut} \<and>
      files ?long (original_path SAVE_DIR (py ''Brasil'')) = Some (replicate 12001 97)"
    using prompt_truncated_original_whole[where cfg = module_config and w = long_world
        and raw_title = "py ''brasil''" and lang = WIKI_LANG and io = INTRO_ONLY
        and norm_title = "py ''Brasil''" and original_text = "replicate 12001 97"
        and model = "py ''gemini-1.5-flash''"] la long okl
    unfolding Let_def l0 tk[symmetric] slugl by metis
  have ba: "fst (get_wikipedia_article (recursion_limit module_config) (py ''brasil'') WIKI_LANG INTRO_ONLY brasil_world)
      = Inr (py ''Brasil'', py ''O Brasil'')"
    by code_simp
  have ok: "fst (topic_pipeline module_config (py ''brasil'') WIKI_LANG INTRO_ONLY
          (py ''gemini-1.5-flash'') brasil_world) = Inr ()"
    by code_simp
  have short: "length (py ''O Brasil'') \<le> 12000" by (simp add: py_def)
  have slug: "slugify (unicode_alnum brasil_world) (py ''Brasil'') = py ''Brasil''" by code_simp
  have B: "(\<exists>ps. prompts_since 0 ?short = primary_prompt (py ''O Brasil'') # ps) \<and>
      set (prompts_since 0 ?short) \<subseteq> {primary_prompt (py ''O Brasil''), alternate_prompt (py ''O Brasil'')} \<and>
      files ?short (original_path SAVE_DIR (py ''Brasil'')) = Some (py ''O Brasil'')"
    using prompt_truncated_original_whole[where cfg = module_config and w = brasil_world
        and raw_title = "py ''brasil''" and lang = WIKI_LANG and io = INTRO_ONLY
        and norm_title = "py ''Brasil''" and original_text = "py ''O Brasil''"
        and model = "py ''gemini-1.5-flash''"] ba ok short
    unfolding Let_def l0 slug by metis
  from A B show ?thesis by blast
qed

subsection \<open>The batch\<close>

lemma collect_unfold:
  "collect_and_generate_for_title cfg raw_title lang io model w =
     (if unprintable w (Collecting raw_title) then (Inl UnicodeEncodeError, w)
      else (let r = topic_pipeline cfg raw_title lang io model (print_event (Collecting raw_title) w)
            in case fst r of
                 Inl e \<Rightarrow>
                   if unprintable w (Failed raw_title e) then (Inl UnicodeEncodeError, snd r)
                   else (Inr (), print_event (Failed raw_title e) (snd r))
               | Inr u \<Rightarrow> (Inr (), snd r)))"
proof -
  let ?r = "topic_pipeline cfg raw_title lang io model (print_event (Collecting raw_title) w)"
  have u: "unprintable (snd ?r) = unprintable w" by (simp add: pipeline_unprintable)
  obtain a wr where r: "?r = (a, wr)" by (cases ?r)
  with u have u': "unprintable wr = unprintable w" by simp
  show ?thesis
    by (simp add: collect_and_generate_for_title_def print_line_def r u' Let_def split: sum.splits)
qed





lemma collect_throttled:
  assumes "ENFORCE_CLIENT_THROTTLE cfg" and "0 < FREE_TIER_RPM cfg" and "throttled cfg w"
  shows "throttled cfg (snd (collect_and_generate_for_title cfg raw_title lang io model w))"
proof -
  have "throttled cfg (print_event (Collecting raw_title) w)"
    using assms(3) by (simp add: throttled_def)
  from pipeline_throttled[OF assms(1,2) this, of raw_title lang io model] assms(3)
  show ?thesis
    by (simp add: collect_unfold Let_def throttled_def split: sum.splits)
qed



lemma main_loop_step:
  "main_loop cfg (t # ts) model w =
     (let c = collect_and_generate_for_title cfg t WIKI_LANG INTRO_ONLY model w
      in case fst c of Inl e \<Rightarrow> (Inl e, snd c) | Inr u \<Rightarrow> main_loop cfg ts model (snd c))"
  by (cases "collect_and_generate_for_title cfg t WIKI_LANG INTRO_ONLY model w")
     (simp add: Let_def split: sum.splits)

declare main_loop.simps(2) [simp del]







lemma main_loop_throttled:
  assumes "ENFORCE_CLIENT_THROTTLE cfg" and "0 < FREE_TIER_RPM cfg"
  shows "throttled cfg w \<Longrightarrow> throttled cfg (snd (main_loop cfg ts model w))"
proof (induction ts arbitrary: w)
  case Nil
  then show ?case by simp
next
  case (Cons t ts)
  then show ?case
    using collect_throttled[OF assms] by (simp add: main_loop_step Let_def split: sum.splits)
qed




subsection \<open>The throttle\<close>

text \<open>
  C2. With the throttle enforced and a positive \<^verbatim>\<open>FREE_TIER_RPM\<close>:
  \<^verbatim>\<open>_client_throttle_sleep\<close> returns with \<^verbatim>\<open>_last_call_ts\<close> equal to the time of its return,
  which is at least \<open>60 / FREE_TIER_RPM\<close> seconds after the previous \<^verbatim>\<open>_last_call_ts\<close>; and
  in a whole batch, started before any call, the times at which the calls of
  \<^verbatim>\<open>generate_content\<close> are issued are at least \<open>60 / FREE_TIER_RPM\<close> seconds apart, each
  from the one before, also when an exception ends the batch early. Time is the clock
  of the world: \<^verbatim>\<open>time.time\<close> reads it, \<^verbatim>\<open>time.sleep\<close> and the calls of the model move it
  forward.
\<close>

theorem calls_spaced:
  "ENFORCE_CLIENT_THROTTLE cfg \<and> 0 < FREE_TIER_RPM cfg \<longrightarrow>
     last_call_ts (client_throttle_sleep cfg w) = clock (client_throttle_sleep cfg w) \<and>
     last_call_ts w + 60 / of_int (FREE_TIER_RPM cfg) \<le> clock (client_throttle_sleep cfg w) \<and>
     (gen_calls w = [] \<longrightarrow>
        spaced (60 / of_int (FREE_TIER_RPM cfg)) (map fst (gen_calls (snd (main_loop cfg topics model w)))))"
proof
  assume a: "ENFORCE_CLIENT_THROTTLE cfg \<and> 0 < FREE_TIER_RPM cfg"
  then have e: "ENFORCE_CLIENT_THROTTLE cfg" and p: "0 < FREE_TIER_RPM cfg" by simp_all
  note t = throttle_post[OF e p, of w]
  have "gen_calls w = [] \<longrightarrow>
        spaced (60 / of_int (FREE_TIER_RPM cfg)) (map fst (gen_calls (snd (main_loop cfg topics model w))))"
  proof
    assume "gen_calls w = []"
    then have "throttled cfg w" by (simp add: throttled_def)
    from main_loop_throttled[OF e p this, of topics model]
    show "spaced (60 / of_int (FREE_TIER_RPM cfg)) (map fst (gen_calls (snd (main_loop cfg topics model w))))"
      by (simp add: throttled_def min_interval_def)
  qed
  with t show "last_call_ts (client_throttle_sleep cfg w) = clock (client_throttle_sleep cfg w) \<and>
     last_call_ts w + 60 / of_int (FREE_TIER_RPM cfg) \<le> clock (client_throttle_sleep cfg w) \<and>
     (gen_calls w = [] \<longrightarrow>
        spaced (60 / of_int (FREE_TIER_RPM cfg)) (map fst (gen_calls (snd (main_loop cfg topics model w)))))"
    by (simp add: min_interval_def)
qed

text \<open>
  C2 on a batch of two topics whose second call of the model fails, at 15 requests per
  minute: the three calls are issued at 1000, 1004 and 1008 seconds; and on a throttle
  called one second after the last call.
\<close>

theorem calls_spaced_witness:
  "map fst (gen_calls (snd (main_loop module_config [py ''Brasil'', py ''Chile''] (py ''gemini-1.5-flash'') hurried_world)))
     = [1000, 1004, 1008] \<and>
   spaced 4 (map fst (gen_calls (snd (main_loop module_config [py ''Brasil'', py ''Chile''] (py ''gemini-1.5-flash'') hurried_world)))) \<and>
   last_call_ts (client_throttle_sleep module_config (calm_world\<lparr>last_call_ts := 999\<rparr>)) = 1003 \<and>
   clock (client_throttle_sleep module_config (calm_world\<lparr>last_call_ts := 999\<rparr>)) = 1003"
proof -
  let ?wf = "snd (main_loop module_config [py ''Brasil'', py ''Chile''] (py ''gemini-1.5-flash'') hurried_world)"
  let ?w = "calm_world\<lparr>last_call_ts := 999\<rparr>"
  have cfg: "ENFORCE_CLIENT_THROTTLE module_config \<and> 0 < FREE_TIER_RPM module_config"
    "60 / of_int (FREE_TIER_RPM module_config) = (4::rat)"
    by (simp_all add: module_config_def)
  have e: "gen_calls hurried_world = []"
    by (simp add: hurried_world_def two_page_world_def calm_world_def)
  have times: "map fst (gen_calls ?wf) = [1000, 1004, 1008]" by code_simp
  have A: "spaced 4 (map fst (gen_calls ?wf))"
    using calls_spaced[where cfg = module_config and w = hurried_world
        and topics = "[py ''Brasil'', py ''Chile'']" and model = "py ''gemini-1.5-flash''"] cfg e
    by simp
  have c: "clock (client_throttle_sleep module_config ?w) = 1003" by code_simp
  have B: "last_call_ts (client_throttle_sleep module_config ?w) = clock (client_throttle_sleep module_config ?w)"
    using calls_spaced[where cfg = module_config and w = ?w and topics = "[]" and model = "[]"] cfg
    by simp
  from times A B c show ?thesis by simp
qed

end
